theory Spec2Isabelle
  imports Complex_Main "HOL-Library.Word" "HOL-Library.Log_Nat"
begin

section \<open>Basic data\<close>

text \<open>
  Go's \<open>byte\<close> is an 8-bit word and a \<open>[]byte\<close> a list of them. A Go \<open>error\<close> is
  represented by its message (\<open>err.Error()\<close>), which is what the handlers write into
  the HTTP response. A function returning \<open>(T, error)\<close> is a sum \<open>error + T\<close> with
  \<open>Inl\<close> the error; \<open>(bool, error)\<close> of the signature check keeps both components,
  the error being \<open>None\<close> for Go's \<open>nil\<close>.
\<close>

type_synonym byte = "8 word"
type_synonym bytes = "byte list"
type_synonym error = string

section \<open>Signing / verification (types/utils.go and the relay's private copy)\<close>

text \<open>
  The BLS library (\<open>prysm/shared/bls\<close>) is an external collaborator. Its three entry
  points used by the code are taken as parameters, collected in a record:
  \<open>bls.SignatureFromBytes\<close>, \<open>bls.PublicKeyFromBytes\<close> and the method \<open>sig.Verify\<close>.
  The types \<open>'s\<close> and \<open>'k\<close> are the library's decoded signature and public key.
\<close>

record ('s, 'k) bls =
  SignatureFromBytes :: "bytes \<Rightarrow> error + 's"
  PublicKeyFromBytes :: "bytes \<Rightarrow> error + 'k"
  Verify :: "'s \<Rightarrow> 'k \<Rightarrow> bytes \<Rightarrow> bool"

text \<open>
  \<open>VerifySignature(obj HashTreeRoot, pk, s []byte) (bool, error)\<close>. The interface value
  \<open>obj\<close> is the object together with its method \<open>HashTreeRoot\<close>, here the function
  \<open>htr\<close> applied to \<open>obj\<close>; \<open>msg[:]\<close> is the 32-byte root as a slice.
\<close>

definition VerifySignature ::
  "('s, 'k) bls \<Rightarrow> ('o \<Rightarrow> error + bytes) \<Rightarrow> 'o \<Rightarrow> bytes \<Rightarrow> bytes \<Rightarrow> bool \<times> error option"
where
  "VerifySignature B htr obj pk s =
     (case htr obj of
        Inl err \<Rightarrow> (False, Some err)
      | Inr msg \<Rightarrow>
          (case SignatureFromBytes B s of
             Inl err \<Rightarrow> (False, Some err)
           | Inr sig \<Rightarrow>
               (case PublicKeyFromBytes B pk of
                  Inl err \<Rightarrow> (False, Some err)
                | Inr pubkey \<Rightarrow> (Verify B sig pubkey msg, None))))"

text \<open>The relay's own \<open>verifySignature\<close> (package main) has the same body.\<close>

definition verifySignature ::
  "('s, 'k) bls \<Rightarrow> ('o \<Rightarrow> error + bytes) \<Rightarrow> 'o \<Rightarrow> bytes \<Rightarrow> bytes \<Rightarrow> bool \<times> error option"
where
  "verifySignature B htr obj pk s =
     (case htr obj of
        Inl err \<Rightarrow> (False, Some err)
      | Inr msg \<Rightarrow>
          (case SignatureFromBytes B s of
             Inl err \<Rightarrow> (False, Some err)
           | Inr sig \<Rightarrow>
               (case PublicKeyFromBytes B pk of
                  Inl err \<Rightarrow> (False, Some err)
                | Inr pubkey \<Rightarrow> (Verify B sig pubkey msg, None))))"

text \<open>
  A small concrete instance of the library, used to run the definitions on concrete
  inputs: a signature decodes when it has 96 bytes, a public key when it has 48, and
  a signature verifies when its first 32 bytes are the message and the next 48 the key.
\<close>

definition toy_bls :: "(bytes, bytes) bls" where
  "toy_bls =
     \<lparr> SignatureFromBytes = (\<lambda>s. if length s = 96 then Inr s else Inl ''bad signature length''),
       PublicKeyFromBytes = (\<lambda>k. if length k = 48 then Inr k else Inl ''bad pubkey length''),
       Verify = (\<lambda>sig k msg. take 32 sig = msg \<and> take 48 (drop 32 sig) = k) \<rparr>"

definition toy_root :: "bytes \<Rightarrow> error + bytes" where
  "toy_root obj = (if length obj = 32 then Inr obj else Inl ''cannot encode'')"

definition toy_sign :: "bytes \<Rightarrow> bytes \<Rightarrow> bytes" where
  "toy_sign k msg = msg @ k @ replicate 16 0"

section \<open>HTTP response writer (net/http)\<close>

text \<open>
  The handlers act on an \<open>http.ResponseWriter\<close>. What the standard library does with
  it is written out: \<open>w.Header()\<close> is a mutable map; the first \<open>WriteHeader\<close> fixes
  the status code and the headers that are sent, a later one is ignored (the library
  only logs a superfluous call); \<open>Write\<close> sends status 200 first when no header has been
  written and then appends to the body; \<open>http.Error\<close> sets two headers, writes the
  status and prints the message followed by a newline.
\<close>

record ResponseWriter =
  header :: "string \<rightharpoonup> string"
  wroteHeader :: bool
  status :: nat
  sentHeader :: "string \<rightharpoonup> string"
  body :: string

definition newResponseWriter :: ResponseWriter where
  "newResponseWriter =
     \<lparr> header = Map.empty, wroteHeader = False, status = 0, sentHeader = Map.empty, body = [] \<rparr>"

abbreviation StatusOK :: nat where "StatusOK \<equiv> 200"
abbreviation StatusBadRequest :: nat where "StatusBadRequest \<equiv> 400"
abbreviation StatusInternalServerError :: nat where "StatusInternalServerError \<equiv> 500"

definition Header_Set :: "string \<Rightarrow> string \<Rightarrow> ResponseWriter \<Rightarrow> ResponseWriter" where
  "Header_Set k v w = w\<lparr>header := (header w)(k \<mapsto> v)\<rparr>"

definition WriteHeader :: "nat \<Rightarrow> ResponseWriter \<Rightarrow> ResponseWriter" where
  "WriteHeader code w =
     (if wroteHeader w then w
      else w\<lparr>wroteHeader := True, status := code, sentHeader := header w\<rparr>)"

definition Write :: "string \<Rightarrow> ResponseWriter \<Rightarrow> ResponseWriter" where
  "Write b w = (let w' = WriteHeader StatusOK w in w'\<lparr>body := body w' @ b\<rparr>)"

definition http_Error :: "ResponseWriter \<Rightarrow> string \<Rightarrow> nat \<Rightarrow> ResponseWriter" where
  "http_Error w err code =
     Write (err @ [CHR 0x0A])
       (WriteHeader code
         (Header_Set ''X-Content-Type-Options'' ''nosniff''
           (Header_Set ''Content-Type'' ''text/plain; charset=utf-8'' w)))"

text \<open>
  \<open>json.NewEncoder(w).Encode(v)\<close>: the value is marshalled first, by the encoder \<open>enc\<close>
  of its type (a parameter); a marshalling error is returned with nothing written,
  otherwise the text and a newline are written to \<open>w\<close>.
\<close>

definition Encode :: "('a \<Rightarrow> error + string) \<Rightarrow> ResponseWriter \<Rightarrow> 'a \<Rightarrow> ResponseWriter \<times> error option" where
  "Encode enc w v =
     (case enc v of
        Inl err \<Rightarrow> (w, Some err)
      | Inr s \<Rightarrow> (Write (s @ [CHR 0x0A]) w, None))"

section \<open>Payload cache (hashicorp/golang-lru)\<close>

text \<open>
  The cache is the library's LRU: a size and the entries, most recently used first.
  \<open>Add\<close> moves an existing key to the front with the new value, or pushes a new entry
  and removes the oldest one when the size is exceeded. \<open>Get\<close> moves a found entry to
  the front. \<open>lru.New\<close> fails for a size that is not positive.
\<close>

record ('k, 'v) lru_Cache =
  lru_size :: nat
  entries :: "('k \<times> 'v) list"

definition lru_New :: "int \<Rightarrow> error + ('k, 'v) lru_Cache" where
  "lru_New n = (if n \<le> 0 then Inl ''Must provide a positive size''
                else Inr \<lparr> lru_size = nat n, entries = [] \<rparr>)"

definition lru_Add :: "'k \<Rightarrow> 'v \<Rightarrow> ('k, 'v) lru_Cache \<Rightarrow> ('k, 'v) lru_Cache" where
  "lru_Add k v c =
     (case map_of (entries c) k of
        Some _ \<Rightarrow> c\<lparr>entries := (k, v) # filter (\<lambda>e. fst e \<noteq> k) (entries c)\<rparr>
      | None \<Rightarrow>
          (let es = (k, v) # entries c
           in c\<lparr>entries := (if length es > lru_size c then butlast es else es)\<rparr>))"

definition lru_Get :: "'k \<Rightarrow> ('k, 'v) lru_Cache \<Rightarrow> 'v option \<times> ('k, 'v) lru_Cache" where
  "lru_Get k c =
     (case map_of (entries c) k of
        Some v \<Rightarrow> (Some v, c\<lparr>entries := (k, v) # filter (\<lambda>e. fst e \<noteq> k) (entries c)\<rparr>)
      | None \<Rightarrow> (None, c))"

section \<open>Builder-relay data\<close>

text \<open>
  Modelled from the spec: the message types of the \<open>types\<close> package, whose
  declarations are not among the sources. The records below carry the fields that the
  relay and the driver read or set, with the lengths left to the values
  (\<open>types.PublicKey\<close> has 48 bytes, \<open>types.Signature\<close> 96, a hash 32). A decoded message
  has all its parts: a request body that leaves one of the nested messages out is not
  represented. The two payload forms, \<open>ExecutionPayloadV1\<close> (engine form) and
  \<open>ExecutionPayloadREST\<close>, are never inspected by the relay and are the type
  parameters \<open>'p\<close> and \<open>'r\<close>.
\<close>

type_synonym hash = "256 word"

record RegisterValidatorRequestMessage =
  FeeRecipient :: bytes
  GasLimit :: nat
  Timestamp :: nat
  Pubkey :: bytes

record SignedValidatorRegistration =
  Message :: RegisterValidatorRequestMessage
  Signature :: bytes

record ExecutionPayloadHeader =
  BlockHash :: hash

record BlindedBeaconBlockBody =
  ExecutionPayloadHeader :: ExecutionPayloadHeader

record BlindedBeaconBlock =
  Slot :: nat
  ProposerIndex :: nat
  Body :: BlindedBeaconBlockBody

record SignedBlindedBeaconBlock =
  Message :: BlindedBeaconBlock
  Signature :: bytes

record BuilderBid =
  Header :: ExecutionPayloadHeader
  Value :: bytes
  Pubkey :: bytes

record SignedBuilderBid =
  Message :: BuilderBid
  Signature :: bytes

record GetHeaderResponse =
  Version :: string
  Data :: SignedBuilderBid

record 'r GetPayloadResponse =
  Version :: string
  Data :: "'r option"

text \<open>
  A value held by the relay's cache has a dynamic type (\<open>interface{}\<close>); the assertion
  \<open>v.(*types.ExecutionPayloadREST)\<close> with the two-result form yields \<open>(nil, false)\<close>
  on any other type.
\<close>

datatype ('p, 'r) cached = PayloadV1 'p | PayloadREST 'r

definition assertREST :: "('p, 'r) cached \<Rightarrow> 'r option \<times> bool" where
  "assertREST v = (case v of PayloadREST x \<Rightarrow> (Some x, True) | PayloadV1 _ \<Rightarrow> (None, False))"

text \<open>
  \<open>copy(a[:], b)\<close> into a zeroed array of \<open>n\<close> bytes (a \<open>types.Signature\<close> has 96, a
  \<open>types.PublicKey\<close> 48): the first \<open>n\<close> bytes of \<open>b\<close>, padded with zeros.
\<close>

definition copy_into :: "nat \<Rightarrow> bytes \<Rightarrow> bytes" where
  "copy_into n b = take n b @ replicate (n - length b) 0"

section \<open>Builder-relay server\<close>

text \<open>
  The relay's state. \<open>engine_recentPayloads\<close> is \<open>r.engine.backend.recentPayloads\<close>, the
  cache of the engine backend, which holds engine-form payloads (the unchecked
  assertion in \<open>handleGetHeader\<close> relies on it).
\<close>

record ('p, 'r) RelayBackend =
  pk :: bytes
  sk :: bytes
  engine_recentPayloads :: "(hash, 'p) lru_Cache"
  recentPayloads :: "(hash, ('p, 'r) cached) lru_Cache"
  latestPubkey :: bytes

text \<open>
  What the handlers call in other packages, as parameters: the BLS library, the JSON decoder
  and encoder of each message type, the \<open>HashTreeRoot\<close> method of each signable type,
  \<open>common.HexToHash\<close>, the two payload conversions of the \<open>types\<close> package, signing
  with a secret key (\<open>sk.Sign(msg).Marshal()\<close>) and \<open>PublicKey.UnmarshalText\<close>.

  The two decoders stand for \<open>json.NewDecoder(req.Body).Decode(&payload)\<close> with
  \<open>payload\<close> a pointer made by \<open>new\<close>: the result is an error, or the pointer as the
  decoder leaves it. On the JSON value \<open>null\<close> the decoder sets the pointer to nil and
  reports no error; that is the result \<open>Inr None\<close>.
\<close>

record ('s, 'k, 'p, 'r) relay_env =
  BLS :: "('s, 'k) bls"
  decodeRegistration :: "string \<Rightarrow> error + SignedValidatorRegistration option"
  decodeBlindedBlock :: "string \<Rightarrow> error + SignedBlindedBeaconBlock option"
  htrRegistration :: "RegisterValidatorRequestMessage \<Rightarrow> error + bytes"
  htrBlindedBlock :: "BlindedBeaconBlock \<Rightarrow> error + bytes"
  htrBuilderBid :: "BuilderBid \<Rightarrow> error + bytes"
  HexToHash :: "string \<Rightarrow> hash"
  PayloadToPayloadHeader :: "'p \<Rightarrow> error + ExecutionPayloadHeader"
  ELPayloadToRESTPayload :: "'p \<Rightarrow> error + 'r"
  Sign :: "bytes \<Rightarrow> bytes \<Rightarrow> bytes"
  UnmarshalText :: "string \<Rightarrow> error + bytes"
  encodeGetHeaderResponse :: "GetHeaderResponse \<Rightarrow> error + string"
  encodeGetPayloadResponse :: "'r GetPayloadResponse \<Rightarrow> error + string"

definition errInvalidPubkey :: error where "errInvalidPubkey = ''invalid pubkey''"
definition errInvalidSignature :: error where "errInvalidSignature = ''invalid signature''"

text \<open>
  \<open>NewRelayBackend\<close>: \<open>skey\<close> is the key drawn by \<open>bls.RandKey()\<close>, \<open>pkey\<close> its marshalled
  public key, \<open>engine\<close> the cache of the engine backend that was set up.
\<close>

definition NewRelayBackend :: "bytes \<Rightarrow> bytes \<Rightarrow> (hash, 'p) lru_Cache \<Rightarrow> error + ('p, 'r) RelayBackend" where
  "NewRelayBackend skey pkey engine =
     (case lru_New 10 of
        Inl err \<Rightarrow> Inl err
      | Inr cache \<Rightarrow>
          Inr \<lparr> pk = copy_into 48 pkey, sk = skey,
                engine_recentPayloads = engine, recentPayloads = cache,
                latestPubkey = replicate 48 0 \<rparr>)"

text \<open>
  A handler that dereferences a nil pointer panics. The server recovers the panic and
  closes the connection: no response is written, and the handler has not got to any
  change of the relay's state. \<open>Panic\<close> is that outcome, \<open>Served\<close> the normal return
  with the response writer and the relay's state as the handler leaves them.
\<close>

datatype 'a served = Panic | Served 'a

text \<open>\<open>handleStatus\<close>: the liveness probe.\<close>

definition handleStatus ::
  "('p, 'r) RelayBackend \<Rightarrow> ResponseWriter \<Rightarrow> ResponseWriter \<times> ('p, 'r) RelayBackend"
where
  "handleStatus r w = (WriteHeader StatusOK w, r)"

text \<open>
  \<open>handleRegisterValidator\<close>; \<open>reqBody\<close> is the request body. With \<open>payload\<close> nil
  after the decoding, the first use of \<open>payload.Message\<close> panics.
\<close>

definition handleRegisterValidator ::
  "('s, 'k, 'p, 'r) relay_env \<Rightarrow> ('p, 'r) RelayBackend \<Rightarrow> ResponseWriter \<Rightarrow> string \<Rightarrow>
     (ResponseWriter \<times> ('p, 'r) RelayBackend) served"
where
  "handleRegisterValidator E r w reqBody =
     (case decodeRegistration E reqBody of
        Inl err \<Rightarrow> Served (http_Error w err StatusBadRequest, r)
      | Inr None \<Rightarrow> Panic
      | Inr (Some payload) \<Rightarrow>
          Served
           (if length (RegisterValidatorRequestMessage.Pubkey (SignedValidatorRegistration.Message payload)) \<noteq> 48
            then (http_Error w errInvalidPubkey StatusBadRequest, r)
            else if length (SignedValidatorRegistration.Signature payload) \<noteq> 96
            then (http_Error w errInvalidSignature StatusBadRequest, r)
            else
              (case verifySignature (BLS E) (htrRegistration E)
                      (SignedValidatorRegistration.Message payload)
                      (RegisterValidatorRequestMessage.Pubkey (SignedValidatorRegistration.Message payload))
                      (SignedValidatorRegistration.Signature payload) of
                 (ok, err) \<Rightarrow>
                   if \<not> ok \<or> err \<noteq> None
                   then (http_Error w errInvalidSignature StatusBadRequest, r)
                   else (WriteHeader StatusOK w, r))))"

text \<open>
  \<open>mux.Vars(req)\<close> is a Go map from the route's variable names to their text; reading
  a missing key gives the empty string.
\<close>

definition mux_var :: "(string \<rightharpoonup> string) \<Rightarrow> string \<Rightarrow> string" where
  "mux_var vars k = (case vars k of None \<Rightarrow> [] | Some v \<Rightarrow> v)"

text \<open>
  \<open>handleGetHeader\<close>. The lookup in the engine's cache refreshes the entry there. When
  \<open>UnmarshalText\<close> fails, \<open>latestPubkey\<close> is taken to keep its value.
\<close>

definition handleGetHeader ::
  "('s, 'k, 'p, 'r) relay_env \<Rightarrow> ('p, 'r) RelayBackend \<Rightarrow> ResponseWriter \<Rightarrow> (string \<rightharpoonup> string) \<Rightarrow>
     ResponseWriter \<times> ('p, 'r) RelayBackend"
where
  "handleGetHeader E r w vars =
     (let parentHashHex = mux_var vars ''parent_hash'';
          pubkey = mux_var vars ''pubkey'';
          (found, ecache) = lru_Get (HexToHash E parentHashHex) (engine_recentPayloads r);
          r1 = r\<lparr>engine_recentPayloads := ecache\<rparr>
      in case found of
           None \<Rightarrow> (http_Error w ''Cannot get unknown payload'' StatusBadRequest, r1)
         | Some payload \<Rightarrow>
            (case PayloadToPayloadHeader E payload of
               Inl err \<Rightarrow> (http_Error w ''cannot convert payload to header'' StatusBadRequest, r1)
             | Inr payloadHeader \<Rightarrow>
                (case ELPayloadToRESTPayload E payload of
                   Inl err \<Rightarrow>
                     (http_Error w ''cannot convert payload to payloadREST'' StatusBadRequest, r1)
                 | Inr payloadREST \<Rightarrow>
                    (let r2 = r1\<lparr>recentPayloads :=
                                  lru_Add (BlockHash payloadHeader) (PayloadREST payloadREST)
                                    (recentPayloads r1)\<rparr>;
                         bid = \<lparr> Header = payloadHeader, Value = 1 # replicate 31 0,
                                 BuilderBid.Pubkey = pk r2 \<rparr>
                     in case htrBuilderBid E bid of
                          Inl err \<Rightarrow>
                            (http_Error w ''cannot compute hash tree root'' StatusBadRequest, r2)
                        | Inr msg \<Rightarrow>
                           (let sig = copy_into 96 (Sign E (sk r2) msg);
                                response = \<lparr> GetHeaderResponse.Version = ''bellatrix'',
                                             GetHeaderResponse.Data =
                                               \<lparr> SignedBuilderBid.Message = bid,
                                                 SignedBuilderBid.Signature = sig \<rparr> \<rparr>
                            in case UnmarshalText E pubkey of
                                 Inl err \<Rightarrow>
                                   (http_Error w ''cannot unmarshal pubkey'' StatusBadRequest, r2)
                               | Inr key \<Rightarrow>
                                  (let r3 = r2\<lparr>latestPubkey := key\<rparr>;
                                       w1 = Header_Set ''Content-Type'' ''application/json'' w
                                   in case Encode (encodeGetHeaderResponse E) w1 response of
                                        (w2, Some err) \<Rightarrow>
                                          (http_Error w2 err StatusInternalServerError, r3)
                                      | (w2, None) \<Rightarrow> (WriteHeader StatusOK w2, r3)))))))"

text \<open>
  \<open>handleGetPayload\<close>. With \<open>payload\<close> nil after the decoding, the first use of
  \<open>payload.Signature\<close> panics. After a failed assertion on the cached value the handler
  writes the error and goes on, as the source has no \<open>return\<close> there.
\<close>

definition handleGetPayload ::
  "('s, 'k, 'p, 'r) relay_env \<Rightarrow> ('p, 'r) RelayBackend \<Rightarrow> ResponseWriter \<Rightarrow> string \<Rightarrow>
     (ResponseWriter \<times> ('p, 'r) RelayBackend) served"
where
  "handleGetPayload E r w reqBody =
     (case decodeBlindedBlock E reqBody of
        Inl err \<Rightarrow> Served (http_Error w err StatusBadRequest, r)
      | Inr None \<Rightarrow> Panic
      | Inr (Some payload) \<Rightarrow>
         Served
          (if length (SignedBlindedBeaconBlock.Signature payload) \<noteq> 96
          then (http_Error w errInvalidSignature StatusBadRequest, r)
          else
            (case verifySignature (BLS E) (htrBlindedBlock E)
                    (SignedBlindedBeaconBlock.Message payload) (latestPubkey r)
                    (SignedBlindedBeaconBlock.Signature payload) of
               (ok, err) \<Rightarrow>
                 if \<not> ok \<or> err \<noteq> None
                 then (http_Error w errInvalidSignature StatusBadRequest, r)
                 else
                   (case lru_Get
                           (BlockHash (ExecutionPayloadHeader (Body (SignedBlindedBeaconBlock.Message payload))))
                           (recentPayloads r) of
                      (None, cache) \<Rightarrow>
                        (http_Error w ''cannot get unknown payload'' StatusBadRequest,
                         r\<lparr>recentPayloads := cache\<rparr>)
                    | (Some cachedPayload, cache) \<Rightarrow>
                        (let r1 = r\<lparr>recentPayloads := cache\<rparr>;
                             (execPayload, ok) = assertREST cachedPayload;
                             w1 = (if \<not> ok
                                   then http_Error w ''cannot read to payloadREST'' StatusBadRequest
                                   else w);
                             response = \<lparr> GetPayloadResponse.Version = ''bellatrix'',
                                          GetPayloadResponse.Data = execPayload \<rparr>;
                             w2 = Header_Set ''Content-Type'' ''application/json'' w1
                         in case Encode (encodeGetPayloadResponse E) w2 response of
                              (w3, Some err) \<Rightarrow> (http_Error w3 err StatusInternalServerError, r1)
                            | (w3, None) \<Rightarrow> (WriteHeader StatusOK w3, r1))))))"

text \<open>
  \<open>getRouter\<close>: the four routes. A request is the route together with what its handler
  reads, the body of a POST or the variables of the header path. Every request is
  served with a fresh response writer. \<open>response\<close> is the response that was written,
  if the handler returned; \<open>state_after\<close> is the relay's state after a request,
  unchanged by one whose handler panicked; \<open>serve_all\<close> serves a sequence of requests
  one after the other and gives the relay's state at the end.
\<close>

datatype request =
    GET_status
  | POST_validators string
  | GET_header "string \<rightharpoonup> string"
  | POST_blinded_blocks string

definition serve ::
  "('s, 'k, 'p, 'r) relay_env \<Rightarrow> ('p, 'r) RelayBackend \<Rightarrow> request \<Rightarrow>
     (ResponseWriter \<times> ('p, 'r) RelayBackend) served"
where
  "serve E r req =
     (case req of
        GET_status \<Rightarrow> Served (handleStatus r newResponseWriter)
      | POST_validators b \<Rightarrow> handleRegisterValidator E r newResponseWriter b
      | GET_header vars \<Rightarrow> Served (handleGetHeader E r newResponseWriter vars)
      | POST_blinded_blocks b \<Rightarrow> handleGetPayload E r newResponseWriter b)"

definition response :: "('w \<times> 's) served \<Rightarrow> 'w option" where
  "response res = (case res of Panic \<Rightarrow> None | Served x \<Rightarrow> Some (fst x))"

definition state_after ::
  "('p, 'r) RelayBackend \<Rightarrow> (ResponseWriter \<times> ('p, 'r) RelayBackend) served \<Rightarrow> ('p, 'r) RelayBackend"
where
  "state_after r res = (case res of Panic \<Rightarrow> r | Served x \<Rightarrow> snd x)"

fun serve_all ::
  "('s, 'k, 'p, 'r) relay_env \<Rightarrow> ('p, 'r) RelayBackend \<Rightarrow> request list \<Rightarrow> ('p, 'r) RelayBackend"
where
  "serve_all E r [] = r"
| "serve_all E r (q # qs) = serve_all E (state_after r (serve E r q)) qs"

definition is_GET_header :: "request \<Rightarrow> bool" where
  "is_GET_header q = (case q of GET_header _ \<Rightarrow> True | _ \<Rightarrow> False)"

section \<open>A concrete relay\<close>

text \<open>
  An instance of the parameters, for running the handlers on concrete requests. The
  engine-form and REST-form payloads are numbers, a payload's block hash is its number,
  the decoders know a few bodies each, \<open>null\<close> among them, and a root is 32 copies of
  one byte of the
  message (its timestamp or its slot). The engine's cache holds payload 7 under the
  parent hash 6.
\<close>

definition toy_key :: bytes where "toy_key = replicate 48 2"

definition toy_registration :: SignedValidatorRegistration where
  "toy_registration =
     \<lparr> SignedValidatorRegistration.Message =
         \<lparr> FeeRecipient = replicate 20 0, GasLimit = 30000000, Timestamp = 1,
           RegisterValidatorRequestMessage.Pubkey = toy_key \<rparr>,
       SignedValidatorRegistration.Signature = toy_sign toy_key (replicate 32 1) \<rparr>"

definition toy_block :: "hash \<Rightarrow> bytes \<Rightarrow> SignedBlindedBeaconBlock" where
  "toy_block h sig =
     \<lparr> SignedBlindedBeaconBlock.Message =
         \<lparr> Slot = 1, ProposerIndex = 1,
           Body = \<lparr> ExecutionPayloadHeader = \<lparr> BlockHash = h \<rparr> \<rparr> \<rparr>,
       SignedBlindedBeaconBlock.Signature = sig \<rparr>"

definition toy_env :: "(bytes, bytes, nat, nat) relay_env" where
  "toy_env =
     \<lparr> BLS = toy_bls,
       decodeRegistration = (\<lambda>b.
          if b = ''signed'' then Inr (Some toy_registration)
          else if b = ''tampered''
          then Inr (Some (toy_registration\<lparr>SignedValidatorRegistration.Signature := replicate 96 0\<rparr>))
          else if b = ''null'' then Inr None
          else Inl ''unexpected end of JSON input''),
       decodeBlindedBlock = (\<lambda>b.
          if b = ''signed 7'' then Inr (Some (toy_block 7 (toy_sign toy_key (replicate 32 1))))
          else if b = ''unsigned 7'' then Inr (Some (toy_block 7 (replicate 96 0)))
          else if b = ''null'' then Inr None
          else Inl ''unexpected end of JSON input''),
       htrRegistration = (\<lambda>m. Inr (replicate 32 (of_nat (Timestamp m)))),
       htrBlindedBlock = (\<lambda>m. Inr (replicate 32 (of_nat (Slot m)))),
       htrBuilderBid = (\<lambda>b. Inr (replicate 32 3)),
       HexToHash = (\<lambda>s. if s = ''0x06'' then 6 else 0),
       PayloadToPayloadHeader = (\<lambda>n. Inr \<lparr> BlockHash = of_nat n \<rparr>),
       ELPayloadToRESTPayload = (\<lambda>n. Inr n),
       Sign = toy_sign,
       UnmarshalText = (\<lambda>s. if s = ''0x02'' then Inr toy_key else Inl ''invalid hex string''),
       encodeGetHeaderResponse = (\<lambda>resp. Inr (GetHeaderResponse.Version resp)),
       encodeGetPayloadResponse = (\<lambda>resp.
          Inr (GetPayloadResponse.Version resp @
               (case GetPayloadResponse.Data resp of None \<Rightarrow> '' null''
                | Some n \<Rightarrow> '' payload '' @ replicate n (CHR ''x'')))) \<rparr>"

definition toy_relay :: "(nat, nat) RelayBackend" where
  "toy_relay =
     \<lparr> pk = toy_key, sk = replicate 32 9,
       engine_recentPayloads = \<lparr> lru_size = 10, entries = [(6, 7)] \<rparr>,
       recentPayloads = \<lparr> lru_size = 10, entries = [] \<rparr>,
       latestPubkey = replicate 48 0 \<rparr>"

definition toy_vars :: "string \<Rightarrow> string \<rightharpoonup> string" where
  "toy_vars key = [''slot'' \<mapsto> ''1'', ''parent_hash'' \<mapsto> ''0x06'', ''pubkey'' \<mapsto> key]"

definition toy_relay_keyed :: "(hash \<times> (nat, nat) cached) list \<Rightarrow> (nat, nat) RelayBackend" where
  "toy_relay_keyed es =
     toy_relay\<lparr>recentPayloads := \<lparr> lru_size = 10, entries = es \<rparr>, latestPubkey := toy_key\<rparr>"

section \<open>Consensus mock driver\<close>

text \<open>
  The configuration of \<open>ConsensusCmd\<close> that \<open>RunNode\<close> reads. \<open>BeaconGenesisTime\<close> is in
  seconds, \<open>SlotTime\<close> a \<open>time.Duration\<close> (nanoseconds); the \<open>uint64\<close> fields are
  natural numbers, as no computation on them can wrap (a slot index is positive before
  it is converted). The four frequencies of \<open>ConsensusBehavior\<close> are \<open>float64\<close> values,
  here the real numbers they denote; they are only compared.
\<close>

type_synonym PayloadID = "64 word"

record ConsensusCmd =
  BeaconGenesisTime :: nat
  SlotTime :: int
  SlotsPerEpoch :: nat
  SlotBound :: nat
  GapSlot :: real
  InvalidHashFreq :: real
  ReorgFreq :: real
  ProposalFreq :: real

datatype ExecutePayloadStatus = ExecutionValid | ExecutionInvalid | ExecutionSyncing

record ForkchoiceUpdatedResult =
  PayloadStatus :: ExecutePayloadStatus
  PayloadID :: "PayloadID option"

text \<open>
  What the collaborators answer during one tick: the hash of the chain's current
  header, the successive results of \<open>c.RNG.Float64()\<close> named by the place that draws
  them, the header picked by \<open>calcReorgTarget\<close>, \<open>AddNewBlock\<close> on a parent (the hash of
  the block built, or an error) and the engine's answer to a forkchoice update. The
  payload attributes are represented by the slot they are made for.
\<close>

record tick_env =
  CurrentHeader_Hash :: hash
  RNG_gap :: real
  RNG_invalid :: real
  RNG_reorg :: real
  RNG_proposal :: real
  calcReorgTarget :: hash
  AddNewBlock :: "hash \<Rightarrow> error + hash"
  ForkchoiceUpdatedV1 :: "hash \<Rightarrow> hash \<Rightarrow> hash \<Rightarrow> nat option \<Rightarrow> ForkchoiceUpdatedResult"

text \<open>
  The variables of \<open>RunNode\<close> that live across ticks. \<open>payloadId\<close> is an unbuffered
  channel: its content is the list of values that senders are blocked on, the oldest
  first. \<open>RunNode_init\<close> is the \<open>var\<close> block.
\<close>

record driver =
  finalizedHash :: hash
  safeHash :: hash
  nextFinalized :: hash
  payloadId :: "PayloadID list"

definition RunNode_init :: driver where
  "RunNode_init = \<lparr> finalizedHash = 0, safeHash = 0, nextFinalized = 0, payloadId = [] \<rparr>"

text \<open>
  What a tick does besides updating these variables: the \<open>continue\<close> before and at
  genesis, \<open>os.Exit\<close> with its code, the run-time panic of \<open>slot % 0\<close>, a gap slot, the
  payload with the invalid hash, the proposal started with a received payload id, a
  failed \<open>AddNewBlock\<close>, or the external block that was built.
\<close>

datatype outcome =
    BeforeGenesis
  | Genesis
  | Exit nat
  | DivideByZero
  | GapSlotMocked
  | InvalidHashSent
  | Proposal PayloadID nat
  | AddBlockFailed
  | ExternalBlock hash

definition sendForkchoiceUpdated ::
  "tick_env \<Rightarrow> hash \<Rightarrow> hash \<Rightarrow> hash \<Rightarrow> nat option \<Rightarrow> error + PayloadID option"
where
  "sendForkchoiceUpdated e latest safe final attributes =
     (let result = ForkchoiceUpdatedV1 e latest safe final attributes
      in if PayloadStatus result \<noteq> ExecutionValid
         then Inl ''update not considered valid''
         else Inr (PayloadID result))"

text \<open>
  \<open>select { case v := <-ch: ... default: ... }\<close>: a receive that does not block takes
  the value of the sender that has waited longest, if there is one.
\<close>

fun try_receive :: "'a list \<Rightarrow> 'a option \<times> 'a list" where
  "try_receive [] = (None, [])"
| "try_receive (x # waiting) = (Some x, waiting)"

text \<open>The three assignments at an epoch boundary, in the order of the source.\<close>

definition rotate_hashes :: "hash \<Rightarrow> driver \<Rightarrow> driver" where
  "rotate_hashes h d =
     (let d1 = d\<lparr>finalizedHash := nextFinalized d\<rparr>;
          d2 = d1\<lparr>safeHash := finalizedHash d1\<rparr>
      in d2\<lparr>nextFinalized := h\<rparr>)"

text \<open>
  The body of the \<open>case tick := <-slots.C\<close> branch of \<open>RunNode\<close>, from the computed
  \<open>signedSlot\<close> on, in three parts.

  \<open>background\<close> is the function started with \<open>go\<close> after an external block was built:
  \<open>mockExecution\<close>, the forkchoice update with the \<open>safe\<close> and \<open>final\<close> hashes passed to
  it, and the send on \<open>payloadId\<close>, which leaves the sender waiting. It is run to its
  send within the tick: the model is of a run in which each slot's background work is
  done before the next tick.
\<close>

definition background ::
  "ConsensusCmd \<Rightarrow> tick_env \<Rightarrow> nat \<Rightarrow> hash \<Rightarrow> hash \<Rightarrow> hash \<Rightarrow> driver \<Rightarrow> outcome \<times> driver"
where
  "background c e slot block safe final d =
     (let attributes = (if RNG_proposal e < ProposalFreq c then Some (slot + 1) else None)
      in case sendForkchoiceUpdated e block safe final attributes of
           Inl err \<Rightarrow> (if SlotBound c \<noteq> 0 then (Exit 1, d) else (ExternalBlock block, d))
         | Inr None \<Rightarrow> (ExternalBlock block, d)
         | Inr (Some pid) \<Rightarrow> (ExternalBlock block, d\<lparr>payloadId := payloadId d @ [pid]\<rparr>))"

text \<open>
  \<open>produce\<close> is the tick from the gap-slot test to its end. The work of \<open>mockProposal\<close>
  and of the invalid payload's \<open>NewPayloadV1\<close> call is not followed further.
\<close>

definition produce :: "ConsensusCmd \<Rightarrow> tick_env \<Rightarrow> nat \<Rightarrow> driver \<Rightarrow> outcome \<times> driver" where
  "produce c e slot d =
     (if RNG_gap e < GapSlot c
      then (GapSlotMocked, d\<lparr>payloadId := snd (try_receive (payloadId d))\<rparr>)
      else if RNG_invalid e < InvalidHashFreq c
      then (InvalidHashSent, d)
      else
        (let parent = (if RNG_reorg e < ReorgFreq c then calcReorgTarget e
                       else CurrentHeader_Hash e)
         in case try_receive (payloadId d) of
              (Some pid, waiting) \<Rightarrow> (Proposal pid slot, d\<lparr>payloadId := waiting\<rparr>)
            | (None, _) \<Rightarrow>
               (case AddNewBlock e parent of
                  Inl err \<Rightarrow> (AddBlockFailed, d)
                | Inr block \<Rightarrow> background c e slot block (safeHash d) (finalizedHash d) d)))"

definition RunNode_tick :: "ConsensusCmd \<Rightarrow> tick_env \<Rightarrow> int \<Rightarrow> driver \<Rightarrow> outcome \<times> driver" where
  "RunNode_tick c e signedSlot d =
     (if signedSlot < 0 then (BeforeGenesis, d)
      else if signedSlot = 0 then (Genesis, d\<lparr>safeHash := CurrentHeader_Hash e\<rparr>)
      else
        (let slot = nat signedSlot
         in if SlotBound c > 0 \<and> slot > SlotBound c then (Exit 0, d)
            else if SlotsPerEpoch c = 0 then (DivideByZero, d)
            else if slot mod SlotsPerEpoch c = 0
            then produce c e slot (rotate_hashes (CurrentHeader_Hash e) d)
            else produce c e slot d))"

text \<open>
  The loop over the ticks of the slots \<open>0, 1, ..., n\<close>, one tick per slot, with
  \<open>env s\<close> what the collaborators answer at slot \<open>s\<close>. The result is \<open>None\<close> when the
  process ended on the way.
\<close>

definition continues :: "outcome \<times> driver \<Rightarrow> driver option" where
  "continues r =
     (case fst r of Exit code \<Rightarrow> None | DivideByZero \<Rightarrow> None | _ \<Rightarrow> Some (snd r))"

fun RunNode_slots :: "ConsensusCmd \<Rightarrow> (nat \<Rightarrow> tick_env) \<Rightarrow> nat \<Rightarrow> driver \<Rightarrow> driver option" where
  "RunNode_slots c env 0 d = continues (RunNode_tick c (env 0) 0 d)"
| "RunNode_slots c env (Suc n) d =
     (case RunNode_slots c env n d of
        None \<Rightarrow> None
      | Some d1 \<Rightarrow> continues (RunNode_tick c (env (Suc n)) (int (Suc n)) d1))"

text \<open>The latest epoch boundary at or before slot \<open>n\<close>.\<close>

definition boundary :: "ConsensusCmd \<Rightarrow> nat \<Rightarrow> nat" where
  "boundary c n = (n div SlotsPerEpoch c) * SlotsPerEpoch c"

text \<open>
  The three hashes of a state, and what they are after the ticks of the slots
  \<open>0, ..., n\<close> from the state \<open>d0\<close>: before the first boundary only \<open>safe\<close> has been
  set, at genesis; at the first boundary \<open>finalized\<close> and \<open>safe\<close> take the initial
  \<open>nextFinalized\<close>; from the second boundary on they are the head seen at the boundary
  before the latest one.
\<close>

definition triple :: "driver \<Rightarrow> hash \<times> hash \<times> hash" where
  "triple d = (finalizedHash d, safeHash d, nextFinalized d)"

definition triple_after :: "ConsensusCmd \<Rightarrow> (nat \<Rightarrow> tick_env) \<Rightarrow> nat \<Rightarrow> driver \<Rightarrow> hash \<times> hash \<times> hash" where
  "triple_after c env n d0 =
     (let b = boundary c n; E = SlotsPerEpoch c
      in if b = 0 then (finalizedHash d0, CurrentHeader_Hash (env 0), nextFinalized d0)
         else if b = E then (nextFinalized d0, nextFinalized d0, CurrentHeader_Hash (env b))
         else (CurrentHeader_Hash (env (b - E)), CurrentHeader_Hash (env (b - E)),
               CurrentHeader_Hash (env b)))"

text \<open>
  The spec's reading of the rotation, to be compared with \<open>RunNode_slots\<close>: after slot
  \<open>n\<close>, \<open>finalized\<close> is the head seen two boundaries ago and \<open>safe\<close> the head seen one
  boundary ago. The count of boundaries starts \<open>k\<close> boundaries before the latest one:
  with \<open>k = 0\<close> the latest boundary is one ago, with \<open>k = 1\<close> the one before it.
\<close>

definition spec_rotation :: "ConsensusCmd \<Rightarrow> (nat \<Rightarrow> tick_env) \<Rightarrow> nat \<Rightarrow> nat \<Rightarrow> driver \<Rightarrow> bool" where
  "spec_rotation c env n k d =
     (finalizedHash d = CurrentHeader_Hash (env (boundary c n - (k + 1) * SlotsPerEpoch c)) \<and>
      safeHash d = CurrentHeader_Hash (env (boundary c n - k * SlotsPerEpoch c)))"

text \<open>
  The spec's reading of the handoff: a pending value is dropped before the branches of
  the tick are evaluated, so the tick goes as it would with nothing pending.
\<close>

definition spec_drained_first :: "ConsensusCmd \<Rightarrow> tick_env \<Rightarrow> int \<Rightarrow> driver \<Rightarrow> bool" where
  "spec_drained_first c e signedSlot d =
     (RunNode_tick c e signedSlot d = RunNode_tick c e signedSlot (d\<lparr>payloadId := []\<rparr>))"

section \<open>A concrete driver\<close>

text \<open>
  Two slots per epoch, no slot bound, no gap, invalid or reorg slots, a proposal
  requested at every slot. At slot \<open>s\<close> the head has hash \<open>100 + s\<close>, a block built on a
  parent has the parent's hash plus one, and the engine answers a forkchoice update
  with a payload id equal to the slot of the attributes.
\<close>

definition toy_cmd :: ConsensusCmd where
  "toy_cmd = \<lparr> BeaconGenesisTime = 1700000000, SlotTime = 12000000000, SlotsPerEpoch = 2,
               SlotBound = 0, GapSlot = 0, InvalidHashFreq = 0, ReorgFreq = 0, ProposalFreq = 1 \<rparr>"

definition toy_tick_env :: "nat \<Rightarrow> tick_env" where
  "toy_tick_env s =
     \<lparr> CurrentHeader_Hash = of_nat (100 + s),
       RNG_gap = 1/2, RNG_invalid = 1/2, RNG_reorg = 1/2, RNG_proposal = 1/2,
       calcReorgTarget = of_nat (100 + s),
       AddNewBlock = (\<lambda>parent. Inr (parent + 1)),
       ForkchoiceUpdatedV1 = (\<lambda>latest safe final attributes.
          \<lparr> PayloadStatus = ExecutionValid,
            PayloadID = map_option of_nat attributes \<rparr>) \<rparr>"

section \<open>Slot arithmetic\<close>

text \<open>
  \<open>RunNode\<close> computes the slot index in \<open>float64\<close>. A finite \<open>float64\<close> value is
  represented by the real number it denotes, and \<open>float64 r\<close> is the value that IEEE 754
  binary64 arithmetic delivers for the exact result \<open>r\<close>: the nearest number with a
  53-bit significand, a tie going to the even significand, with the spacing of the
  subnormal range below \<open>2 powi (- 1022)\<close>. Overflow, infinities and NaN are left out;
  they do not arise from the conversion of an \<open>int64\<close> or from the quotient of two such
  values with a divisor that is not zero (\<open>Run\<close> refuses a slot time below 50 ms).

  \<open>float64_exponent r\<close> is the binary exponent of \<open>r \<noteq> 0\<close>, the \<open>e\<close> with
  \<open>2 powi e \<le> \<bar>r\<bar> < 2 powi (e + 1)\<close>, computed from the bit length of the integer
  part of \<open>\<bar>r\<bar>\<close> or of its reciprocal.
\<close>

definition round_even :: "real \<Rightarrow> int" where
  "round_even x =
     (let f = \<lfloor>x\<rfloor>
      in if x - of_int f < 1/2 then f
         else if 1/2 < x - of_int f then f + 1
         else if even f then f else f + 1)"

definition float64_exponent :: "real \<Rightarrow> int" where
  "float64_exponent r =
     (if 1 \<le> \<bar>r\<bar> then bitlen \<lfloor>\<bar>r\<bar>\<rfloor> - 1 else - bitlen (\<lceil>1 / \<bar>r\<bar>\<rceil> - 1))"

definition float64 :: "real \<Rightarrow> real" where
  "float64 r =
     (if r = 0 then 0
      else (let u = 2 powi (max (float64_exponent r) (- 1022) - 52)
            in of_int (round_even (r / u)) * u))"

text \<open>
  A conversion \<open>float64(n)\<close> of an integer and a quotient \<open>x / y\<close> are the rounded exact
  results. \<open>math.Round\<close> gives the nearest integer, a half going away from zero, and is
  exact. The conversion \<open>int64(x)\<close> drops the fraction; it is used on values below
  \<open>2 ^ 63\<close> in size only, beyond which Go leaves the result to the implementation.
\<close>

definition math_Round :: "real \<Rightarrow> real" where
  "math_Round x = of_int (if 0 \<le> x then \<lfloor>x + 1/2\<rfloor> else \<lceil>x - 1/2\<rceil>)"

definition int64_of_float64 :: "real \<Rightarrow> int" where
  "int64_of_float64 x = (if 0 \<le> x then \<lfloor>x\<rfloor> else \<lceil>x\<rceil>)"

text \<open>
  Times are nanoseconds since the Unix epoch. \<open>t.Sub(u)\<close> is a \<open>time.Duration\<close> and
  saturates at the ends of the \<open>int64\<close> range; \<open>time.Unix(sec, 0)\<close> is \<open>sec\<close> seconds;
  \<open>int64(c.BeaconGenesisTime)\<close> reinterprets the \<open>uint64\<close>.
\<close>

definition minDuration :: int where "minDuration = - (2 ^ 63)"
definition maxDuration :: int where "maxDuration = 2 ^ 63 - 1"

definition time_Sub :: "int \<Rightarrow> int \<Rightarrow> int" where
  "time_Sub t u =
     (let d = t - u
      in if d < minDuration then minDuration else if maxDuration < d then maxDuration else d)"

definition time_Unix :: "int \<Rightarrow> int" where
  "time_Unix sec = sec * 1000000000"

definition int64_of_uint64 :: "nat \<Rightarrow> int" where
  "int64_of_uint64 n = (if n < 2 ^ 63 then int n else int n - 2 ^ 64)"

text \<open>
  \<open>int64(math.Round(float64(d) / float64(D)))\<close> for a duration \<open>d\<close> since genesis and
  the slot time \<open>D\<close>, and \<open>signedSlot\<close>, the first statement of the tick branch, for the
  time \<open>tick\<close> delivered by the ticker. \<open>RunNode_case_tick\<close> is the whole branch.
\<close>

definition slot_of :: "int \<Rightarrow> int \<Rightarrow> int" where
  "slot_of dt D = int64_of_float64 (math_Round (float64 (float64 (of_int dt) / float64 (of_int D))))"

definition signedSlot :: "ConsensusCmd \<Rightarrow> int \<Rightarrow> int" where
  "signedSlot c tick =
     (let genesisTime = time_Unix (int64_of_uint64 (BeaconGenesisTime c))
      in slot_of (time_Sub tick genesisTime) (SlotTime c))"

definition RunNode_case_tick :: "ConsensusCmd \<Rightarrow> tick_env \<Rightarrow> int \<Rightarrow> driver \<Rightarrow> outcome \<times> driver" where
  "RunNode_case_tick c e tick d = RunNode_tick c e (signedSlot c tick) d"

section \<open>Properties of the signature check\<close>

lemma verifySignature_eq: "verifySignature B htr obj key s = VerifySignature B htr obj key s"
  by (simp add: verifySignature_def VerifySignature_def)

lemma VerifySignature_ok_iff:
  "VerifySignature B htr obj key s = (True, None) \<longleftrightarrow>
     (\<exists>msg sig pubkey. htr obj = Inr msg \<and> SignatureFromBytes B s = Inr sig \<and>
        PublicKeyFromBytes B key = Inr pubkey \<and> Verify B sig pubkey msg)"
  by (auto simp: VerifySignature_def split: sum.splits)

lemma VerifySignature_error_False:
  "VerifySignature B htr obj key s = (b, Some err) \<Longrightarrow> \<not> b"
  by (auto simp: VerifySignature_def split: sum.splits)

text \<open>
  C6. \<open>verify\<close> (both copies) returns \<open>(true, nil)\<close> only if the decoded signature
  verifies over the object's hash-tree-root under the decoded public key. A failure to
  compute the root yields \<open>(false, err)\<close> whatever the other two inputs are; with a
  root, a signature that fails to decode yields \<open>(false, err)\<close> whatever the key is;
  with a root and a signature, a key that fails to decode yields \<open>(false, err)\<close>.
\<close>

theorem verify_contract:
  fixes B :: "('s, 'k) bls" and htr :: "'o \<Rightarrow> error + bytes"
  shows
  "(\<forall>V \<in> {VerifySignature, verifySignature}.
      (V B htr obj key s = (True, None) \<longrightarrow>
         (\<exists>msg sig pubkey. htr obj = Inr msg \<and> SignatureFromBytes B s = Inr sig \<and>
            PublicKeyFromBytes B key = Inr pubkey \<and> Verify B sig pubkey msg)) \<and>
      (\<forall>err. htr obj = Inl err \<longrightarrow> V B htr obj key s = (False, Some err)) \<and>
      (\<forall>msg err. htr obj = Inr msg \<and> SignatureFromBytes B s = Inl err \<longrightarrow>
         V B htr obj key s = (False, Some err)) \<and>
      (\<forall>msg sig err. htr obj = Inr msg \<and> SignatureFromBytes B s = Inr sig \<and>
         PublicKeyFromBytes B key = Inl err \<longrightarrow> V B htr obj key s = (False, Some err)))"
  by (auto simp: verifySignature_def VerifySignature_def split: sum.splits)

theorem verify_contract_witness:
  "verifySignature toy_bls toy_root (replicate 32 1) (replicate 48 2)
      (toy_sign (replicate 48 2) (replicate 32 1)) = (True, None) \<and>
   (\<exists>msg sig pubkey. toy_root (replicate 32 1) = Inr msg \<and>
      SignatureFromBytes toy_bls (toy_sign (replicate 48 2) (replicate 32 1)) = Inr sig \<and>
      PublicKeyFromBytes toy_bls (replicate 48 2) = Inr pubkey \<and> Verify toy_bls sig pubkey msg) \<and>
   toy_root [] = Inl ''cannot encode'' \<and>
   VerifySignature toy_bls toy_root [] [] [] = (False, Some ''cannot encode'') \<and>
   SignatureFromBytes toy_bls [] = Inl ''bad signature length'' \<and>
   VerifySignature toy_bls toy_root (replicate 32 1) [] [] = (False, Some ''bad signature length'') \<and>
   PublicKeyFromBytes toy_bls [] = Inl ''bad pubkey length'' \<and>
   VerifySignature toy_bls toy_root (replicate 32 1) [] (replicate 96 0) = (False, Some ''bad pubkey length'')"
proof -
  have ok: "verifySignature toy_bls toy_root (replicate 32 1) (replicate 48 2)
      (toy_sign (replicate 48 2) (replicate 32 1)) = (True, None)"
    by (simp add: verifySignature_def toy_bls_def toy_root_def toy_sign_def)
  have r0: "toy_root [] = Inl ''cannot encode''" by (simp add: toy_root_def)
  have r1: "toy_root (replicate 32 1) = Inr (replicate 32 1)" by (simp add: toy_root_def)
  have s0: "SignatureFromBytes toy_bls [] = Inl ''bad signature length''" by (simp add: toy_bls_def)
  have s1: "SignatureFromBytes toy_bls (replicate 96 0) = Inr (replicate 96 0)" by (simp add: toy_bls_def)
  have k0: "PublicKeyFromBytes toy_bls [] = Inl ''bad pubkey length''" by (simp add: toy_bls_def)
  note a = verify_contract [of toy_bls toy_root "replicate 32 1" "replicate 48 2"
      "toy_sign (replicate 48 2) (replicate 32 1)", THEN bspec, of verifySignature]
  note b = verify_contract [of toy_bls toy_root "[]" "[]" "[]", THEN bspec, of VerifySignature]
  note c = verify_contract [of toy_bls toy_root "replicate 32 1" "[]" "[]", THEN bspec, of VerifySignature]
  note d = verify_contract [of toy_bls toy_root "replicate 32 1" "[]" "replicate 96 0", THEN bspec, of VerifySignature]
  from a ok have A: "\<exists>msg sig pubkey. toy_root (replicate 32 1) = Inr msg \<and>
      SignatureFromBytes toy_bls (toy_sign (replicate 48 2) (replicate 32 1)) = Inr sig \<and>
      PublicKeyFromBytes toy_bls (replicate 48 2) = Inr pubkey \<and> Verify toy_bls sig pubkey msg"
    by blast
  from b r0 have B: "VerifySignature toy_bls toy_root [] [] [] = (False, Some ''cannot encode'')"
    by blast
  from c r1 s0 have C: "VerifySignature toy_bls toy_root (replicate 32 1) [] [] = (False, Some ''bad signature length'')"
    by blast
  from d r1 s1 k0 have D: "VerifySignature toy_bls toy_root (replicate 32 1) [] (replicate 96 0) = (False, Some ''bad pubkey length'')"
    by blast
  from ok A r0 B s0 C k0 D show ?thesis by blast
qed

section \<open>Properties of the response writer and the cache\<close>

lemma newResponseWriter_simps [simp]:
  "\<not> wroteHeader newResponseWriter" "body newResponseWriter = []"
  "header newResponseWriter = Map.empty"
  by (simp_all add: newResponseWriter_def)

lemma WriteHeader_unwritten:
  "\<not> wroteHeader w \<Longrightarrow> status (WriteHeader c w) = c \<and> wroteHeader (WriteHeader c w) \<and>
     body (WriteHeader c w) = body w \<and> sentHeader (WriteHeader c w) = header w \<and>
     header (WriteHeader c w) = header w"
  by (simp add: WriteHeader_def)

lemma status_http_Error_new [simp]: "status (http_Error newResponseWriter e c) = c"
  by (simp add: http_Error_def Write_def WriteHeader_def Header_Set_def newResponseWriter_def)

lemma http_Error_unwritten:
  "\<not> wroteHeader w \<Longrightarrow> status (http_Error w e c) = c \<and> wroteHeader (http_Error w e c) \<and>
     body (http_Error w e c) = body w @ e @ [CHR 0x0A] \<and>
     sentHeader (http_Error w e c) = (header w)(''Content-Type'' \<mapsto> ''text/plain; charset=utf-8'',
        ''X-Content-Type-Options'' \<mapsto> ''nosniff'')"
  by (simp add: http_Error_def Write_def WriteHeader_def Header_Set_def Let_def)

lemma fst_lru_Get: "fst (lru_Get k c) = map_of (entries c) k"
  by (simp add: lru_Get_def split: option.splits)

lemma lru_size_Get [simp]: "lru_size (snd (lru_Get k c)) = lru_size c"
  by (simp add: lru_Get_def split: option.splits)

lemma lru_size_Add [simp]: "lru_size (lru_Add k v c) = lru_size c"
  by (simp add: lru_Add_def Let_def split: option.splits)

lemma lru_Add_lookup:
  "0 < lru_size c \<Longrightarrow> map_of (entries (lru_Add k v c)) k = Some v"
  by (cases "entries c" rule: rev_cases)
     (auto simp: lru_Add_def Let_def butlast_append split: option.splits)

section \<open>Properties of the relay handlers\<close>

text \<open>The relay's cache keeps the size it was created with.\<close>

lemma NewRelayBackend_size:
  "NewRelayBackend skey pkey engine = Inr r \<Longrightarrow> lru_size (recentPayloads r) = 10"
  by (auto simp: NewRelayBackend_def lru_New_def)

lemma response_simps [simp]:
  "response Panic = None" "response (Served x) = Some (fst x)"
  by (simp_all add: response_def)

lemma state_after_simps [simp]:
  "state_after r Panic = r" "state_after r (Served x) = snd x"
  by (simp_all add: state_after_def)

lemma lru_Get_size: "lru_Get k c = (x, c') \<Longrightarrow> lru_size c' = lru_size c"
  using lru_size_Get [of k c] by simp

lemma serve_lru_size:
  "lru_size (recentPayloads (state_after r (serve E r q))) = lru_size (recentPayloads r)"
proof (cases q)
  case GET_status
  then show ?thesis by (simp add: serve_def handleStatus_def)
next
  case (POST_validators b)
  then show ?thesis
    by (simp add: serve_def handleRegisterValidator_def split: sum.splits prod.splits option.splits)
next
  case (GET_header vars)
  then show ?thesis
    by (simp add: serve_def handleGetHeader_def Let_def
          split: sum.splits prod.splits option.splits)
next
  case (POST_blinded_blocks b)
  then show ?thesis
    by (auto simp: serve_def handleGetPayload_def Let_def lru_Get_size
          split: sum.splits prod.splits option.splits)
qed

lemma handleGetHeader_cached:
  assumes "fst (lru_Get (HexToHash E (mux_var vars ''parent_hash'')) (engine_recentPayloads r)) = Some payload"
      and "PayloadToPayloadHeader E payload = Inr h"
      and "ELPayloadToRESTPayload E payload = Inr p"
      and "0 < lru_size (recentPayloads r)"
  shows "map_of (entries (recentPayloads (snd (handleGetHeader E r w vars)))) (BlockHash h) = Some (PayloadREST p)"
  using assms
  by (cases "lru_Get (HexToHash E (mux_var vars ''parent_hash'')) (engine_recentPayloads r)")
     (auto simp: handleGetHeader_def Let_def lru_Add_lookup split: sum.splits prod.splits option.splits)

lemma handleGetPayload_hit:
  assumes "decodeBlindedBlock E reqBody = Inr (Some blk)"
      and "length (SignedBlindedBeaconBlock.Signature blk) = 96"
      and "verifySignature (BLS E) (htrBlindedBlock E) (SignedBlindedBeaconBlock.Message blk)
             (latestPubkey r) (SignedBlindedBeaconBlock.Signature blk) = (True, None)"
      and "map_of (entries (recentPayloads r))
             (BlockHash (ExecutionPayloadHeader (Body (SignedBlindedBeaconBlock.Message blk)))) = Some (PayloadREST p)"
      and "encodeGetPayloadResponse E
             \<lparr> GetPayloadResponse.Version = ''bellatrix'', GetPayloadResponse.Data = Some p \<rparr> = Inr s"
  shows "\<exists>w' r'. handleGetPayload E r newResponseWriter reqBody = Served (w', r') \<and>
           status w' = StatusOK \<and> body w' = s @ [CHR 0x0A] \<and>
           sentHeader w' ''Content-Type'' = Some ''application/json''"
  using assms
  by (auto simp: handleGetPayload_def assertREST_def Encode_def Let_def lru_Get_def
        Header_Set_def Write_def WriteHeader_def newResponseWriter_def
        split: prod.splits option.splits sum.splits)

lemma serve_latestPubkey:
  "\<not> is_GET_header q \<Longrightarrow> latestPubkey (state_after r (serve E r q)) = latestPubkey r"
  by (cases q)
     (auto simp: serve_def is_GET_header_def handleStatus_def handleRegisterValidator_def
        handleGetPayload_def Let_def split: sum.splits prod.splits option.splits)

lemma serve_all_latestPubkey:
  "\<forall>q \<in> set qs. \<not> is_GET_header q \<Longrightarrow> latestPubkey (serve_all E r qs) = latestPubkey r"
  by (induction qs arbitrary: r) (simp_all add: serve_latestPubkey)

text \<open>Requests other than get-header leave the content of the relay's cache as it is.\<close>

lemma map_of_filter_key:
  "map_of (filter (\<lambda>e. fst e \<noteq> k) es) k' = (if k' = k then None else map_of es k')"
  by (induction es) auto

lemma lru_Get_map_of: "map_of (entries (snd (lru_Get k c))) = map_of (entries c)"
  by (auto simp: lru_Get_def map_of_filter_key fun_eq_iff split: option.splits)

lemma serve_cache_lookup:
  assumes "\<not> is_GET_header q"
  shows "map_of (entries (recentPayloads (state_after r (serve E r q)))) =
           map_of (entries (recentPayloads r))"
proof (cases q)
  case GET_status
  then show ?thesis by (simp add: serve_def handleStatus_def)
next
  case (POST_validators b)
  then show ?thesis
    by (simp add: serve_def handleRegisterValidator_def split: sum.splits prod.splits option.splits)
next
  case (GET_header vars)
  with assms show ?thesis by (simp add: is_GET_header_def)
next
  case (POST_blinded_blocks b)
  have g: "lru_Get k (recentPayloads r) = (x, c) \<Longrightarrow> map_of (entries c) = map_of (entries (recentPayloads r))"
    for k x c using lru_Get_map_of [of k "recentPayloads r"] by simp
  from POST_blinded_blocks show ?thesis
    by (auto simp: serve_def handleGetPayload_def Let_def g
          split: sum.splits prod.splits option.splits)
qed

lemma serve_all_cache_lookup:
  "\<forall>q \<in> set qs. \<not> is_GET_header q \<Longrightarrow>
   map_of (entries (recentPayloads (serve_all E r qs))) = map_of (entries (recentPayloads r))"
  by (induction qs arbitrary: r) (simp_all add: serve_cache_lookup)

lemma handleGetHeader_ok_latestPubkey:
  "status (fst (handleGetHeader E r newResponseWriter vars)) = StatusOK \<Longrightarrow>
   UnmarshalText E (mux_var vars ''pubkey'') = Inr (latestPubkey (snd (handleGetHeader E r newResponseWriter vars)))"
  by (auto simp: handleGetHeader_def Let_def Encode_def http_Error_unwritten
        split: prod.splits option.splits sum.splits)

lemma handleGetPayload_ok_verified:
  "handleGetPayload E r newResponseWriter reqBody = Served (w', r') \<Longrightarrow> status w' = StatusOK \<Longrightarrow>
   \<exists>blk. decodeBlindedBlock E reqBody = Inr (Some blk) \<and>
     verifySignature (BLS E) (htrBlindedBlock E) (SignedBlindedBeaconBlock.Message blk)
       (latestPubkey r) (SignedBlindedBeaconBlock.Signature blk) = (True, None)"
  by (auto simp: handleGetPayload_def Let_def http_Error_unwritten
        split: prod.splits option.splits sum.splits if_splits)

text \<open>
  A POST to the validators endpoint whose body fails to decode, or decodes to a
  registration, is answered and leaves the relay's state as it was. The status is 400
  when the body fails to decode, when the pubkey does not have 48 bytes, when the
  signature does not have 96 bytes, or when the signature check over the registration
  message, under the message's own pubkey, does not return \<open>(true, nil)\<close>; otherwise
  it is 200. A body that decodes to the nil pointer makes the handler panic.
\<close>

lemma register_validator_status:
  assumes "decodeRegistration E reqBody \<noteq> Inr None"
  shows "\<exists>w'. handleRegisterValidator E r newResponseWriter reqBody = Served (w', r) \<and>
     status w' =
       (if (\<exists>err. decodeRegistration E reqBody = Inl err) \<or>
           (\<exists>p. decodeRegistration E reqBody = Inr (Some p) \<and>
              (length (RegisterValidatorRequestMessage.Pubkey (SignedValidatorRegistration.Message p)) \<noteq> 48 \<or>
               length (SignedValidatorRegistration.Signature p) \<noteq> 96 \<or>
               verifySignature (BLS E) (htrRegistration E) (SignedValidatorRegistration.Message p)
                 (RegisterValidatorRequestMessage.Pubkey (SignedValidatorRegistration.Message p))
                 (SignedValidatorRegistration.Signature p) \<noteq> (True, None)))
        then StatusBadRequest else StatusOK)"
  using assms
  by (auto simp: handleRegisterValidator_def WriteHeader_unwritten
        split: sum.splits prod.splits option.splits)

lemma register_validator_nil:
  "decodeRegistration E reqBody = Inr None \<Longrightarrow> handleRegisterValidator E r w reqBody = Panic"
  by (simp add: handleRegisterValidator_def)

text \<open>The concrete relay, evaluated.\<close>

lemmas toy_defs = toy_env_def toy_bls_def toy_relay_def toy_relay_keyed_def toy_registration_def
  toy_block_def toy_key_def toy_sign_def toy_vars_def

lemma toy_decode_signed:
  "decodeBlindedBlock toy_env ''signed 7'' = Inr (Some (toy_block 7 (toy_sign toy_key (replicate 32 1))))"
  by (simp add: toy_env_def)

lemma toy_signed_length:
  "length (SignedBlindedBeaconBlock.Signature (toy_block 7 (toy_sign toy_key (replicate 32 1)))) = 96"
  by (simp add: toy_block_def toy_sign_def toy_key_def)

lemma toy_signed_verifies:
  "latestPubkey r = toy_key \<Longrightarrow>
   verifySignature (BLS toy_env) (htrBlindedBlock toy_env)
     (SignedBlindedBeaconBlock.Message (toy_block 7 (toy_sign toy_key (replicate 32 1))))
     (latestPubkey r)
     (SignedBlindedBeaconBlock.Signature (toy_block 7 (toy_sign toy_key (replicate 32 1)))) = (True, None)"
  by (simp add: toy_defs verifySignature_def)

lemma toy_engine_hit:
  "fst (lru_Get (HexToHash toy_env (mux_var (toy_vars key) ''parent_hash''))
          (engine_recentPayloads toy_relay)) = Some 7"
  by (simp add: lru_Get_def toy_env_def toy_relay_def toy_vars_def mux_var_def)

lemma toy_header: "PayloadToPayloadHeader toy_env 7 = Inr \<lparr> BlockHash = 7 \<rparr>"
  by (simp add: toy_env_def)

lemma toy_rest: "ELPayloadToRESTPayload toy_env 7 = Inr 7"
  by (simp add: toy_env_def)

lemma toy_size: "0 < lru_size (recentPayloads toy_relay)"
  by (simp add: toy_relay_def)

lemma toy_get_header_latestPubkey:
  "latestPubkey (snd (handleGetHeader toy_env toy_relay newResponseWriter (toy_vars ''0x02''))) = toy_key"
  by (simp add: handleGetHeader_def lru_Get_def Let_def Encode_def toy_env_def toy_relay_def
        toy_vars_def mux_var_def)

lemma toy_get_header_status:
  "status (fst (handleGetHeader toy_env toy_relay newResponseWriter (toy_vars ''0x02''))) = StatusOK"
  by (simp add: handleGetHeader_def lru_Get_def Let_def Encode_def toy_env_def toy_relay_def
        toy_vars_def mux_var_def Header_Set_def Write_def WriteHeader_def newResponseWriter_def)

lemma toy_registration_answers:
  "map_option status (response (handleRegisterValidator toy_env toy_relay newResponseWriter ''signed''))
     = Some StatusOK"
  "map_option status (response (handleRegisterValidator toy_env toy_relay newResponseWriter ''tampered''))
     = Some StatusBadRequest"
  "map_option status (response (handleRegisterValidator toy_env toy_relay newResponseWriter ''{''))
     = Some StatusBadRequest"
  by (simp_all add: handleRegisterValidator_def toy_defs verifySignature_def WriteHeader_unwritten)

text \<open>
  C7. Not every POST to the validators endpoint is answered with 400 or 200. For the
  body \<open>null\<close> the decoder reports no error and leaves \<open>payload\<close> nil, and the
  handler panics when it reads the pubkey: no response is written, neither 400 nor 200.
  Every other body is answered, as \<open>register_validator_status\<close> above says.
\<close>

theorem register_validator_null_body:
  "decodeRegistration toy_env ''null'' = Inr None \<and>
   handleRegisterValidator toy_env toy_relay newResponseWriter ''null'' = Panic"
  by (simp add: handleRegisterValidator_def toy_env_def)

theorem register_validator_null_body_witness:
  "response (serve toy_env toy_relay (POST_validators ''null'')) = None \<and>
   map_option status (response (serve toy_env toy_relay (POST_validators ''null''))) \<noteq> Some StatusBadRequest \<and>
   map_option status (response (serve toy_env toy_relay (POST_validators ''null''))) \<noteq> Some StatusOK"
  using register_validator_null_body by (simp add: serve_def)

text \<open>
  C8. A get-payload request that decodes to a blinded block whose header's block hash
  has no entry in the relay's cache is answered with 400, whether or not its signature
  is valid: in the concrete relay below, once with a signature that verifies and once
  with one that does not.
\<close>

theorem get_payload_cache_miss:
  assumes "decodeBlindedBlock E reqBody = Inr (Some p)"
      and "fst (lru_Get (BlockHash (ExecutionPayloadHeader (Body (SignedBlindedBeaconBlock.Message p))))
                  (recentPayloads r)) = None"
  shows "map_option status (response (handleGetPayload E r newResponseWriter reqBody))
           = Some StatusBadRequest"
  using assms
  by (auto simp: handleGetPayload_def split: prod.splits option.splits)

theorem get_payload_cache_miss_witness:
  "verifySignature (BLS toy_env) (htrBlindedBlock toy_env)
     (SignedBlindedBeaconBlock.Message (toy_block 7 (toy_sign toy_key (replicate 32 1))))
     (latestPubkey (toy_relay_keyed [])) (toy_sign toy_key (replicate 32 1)) = (True, None) \<and>
   map_option status (response (handleGetPayload toy_env (toy_relay_keyed []) newResponseWriter ''signed 7''))
     = Some StatusBadRequest \<and>
   map_option status (response (handleGetPayload toy_env (toy_relay_keyed [(8, PayloadREST 8)])
     newResponseWriter ''unsigned 7'')) = Some StatusBadRequest"
proof -
  have d2: "decodeBlindedBlock toy_env ''unsigned 7'' = Inr (Some (toy_block 7 (replicate 96 0)))"
    by (simp add: toy_env_def)
  have m1: "fst (lru_Get (BlockHash (ExecutionPayloadHeader (Body (SignedBlindedBeaconBlock.Message
                (toy_block 7 (toy_sign toy_key (replicate 32 1)))))))
              (recentPayloads (toy_relay_keyed []))) = None"
    by (simp add: lru_Get_def toy_relay_keyed_def toy_block_def)
  have m2: "fst (lru_Get (BlockHash (ExecutionPayloadHeader (Body (SignedBlindedBeaconBlock.Message
                (toy_block 7 (replicate 96 0))))))
              (recentPayloads (toy_relay_keyed [(8, PayloadREST 8)]))) = None"
    by (simp add: lru_Get_def toy_relay_keyed_def toy_block_def)
  have v: "verifySignature (BLS toy_env) (htrBlindedBlock toy_env)
     (SignedBlindedBeaconBlock.Message (toy_block 7 (toy_sign toy_key (replicate 32 1))))
     (latestPubkey (toy_relay_keyed [])) (toy_sign toy_key (replicate 32 1)) = (True, None)"
    by (simp add: toy_defs verifySignature_def)
  from v get_payload_cache_miss [OF toy_decode_signed m1] get_payload_cache_miss [OF d2 m2]
  show ?thesis by simp
qed

text \<open>
  C9. A get-header request whose parent hash has a payload in the engine's cache and
  whose pubkey text fails to parse is answered with 400. When both conversions of the
  payload succeed, so that the request gets to its side effects, the relay's cache it
  leaves behind is the old one with the REST-form payload added under the header's
  block hash, where a lookup finds it: nothing is rolled back.
\<close>

theorem get_header_bad_pubkey_keeps_cache:
  assumes "fst (lru_Get (HexToHash E (mux_var vars ''parent_hash'')) (engine_recentPayloads r)) = Some payload"
      and "UnmarshalText E (mux_var vars ''pubkey'') = Inl err"
      and "handleGetHeader E r newResponseWriter vars = (w', r')"
  shows "status w' = StatusBadRequest \<and>
         (\<forall>h p. PayloadToPayloadHeader E payload = Inr h \<and> ELPayloadToRESTPayload E payload = Inr p \<longrightarrow>
            recentPayloads r' = lru_Add (BlockHash h) (PayloadREST p) (recentPayloads r) \<and>
            (0 < lru_size (recentPayloads r) \<longrightarrow>
               fst (lru_Get (BlockHash h) (recentPayloads r')) = Some (PayloadREST p)))"
proof -
  have s: "status w' = StatusBadRequest"
    using assms
    by (cases "lru_Get (HexToHash E (mux_var vars ''parent_hash'')) (engine_recentPayloads r)")
       (auto simp: handleGetHeader_def Let_def http_Error_unwritten split: sum.splits)
  have c: "recentPayloads r' = lru_Add (BlockHash h) (PayloadREST p) (recentPayloads r)"
    if "PayloadToPayloadHeader E payload = Inr h" and "ELPayloadToRESTPayload E payload = Inr p"
    for h p
    using assms that
    by (cases "lru_Get (HexToHash E (mux_var vars ''parent_hash'')) (engine_recentPayloads r)")
       (auto simp: handleGetHeader_def Let_def split: sum.splits)
  from s c show ?thesis
    by (auto simp: fst_lru_Get lru_Add_lookup)
qed

theorem get_header_bad_pubkey_keeps_cache_witness:
  "status (fst (handleGetHeader toy_env toy_relay newResponseWriter (toy_vars ''0x0''))) = StatusBadRequest \<and>
   entries (recentPayloads toy_relay) = [] \<and>
   fst (lru_Get 7 (recentPayloads (snd (handleGetHeader toy_env toy_relay newResponseWriter (toy_vars ''0x0'')))))
     = Some (PayloadREST 7)"
proof -
  have u: "UnmarshalText toy_env (mux_var (toy_vars ''0x0'') ''pubkey'') = Inl ''invalid hex string''"
    by (simp add: toy_env_def toy_vars_def mux_var_def)
  have e: "entries (recentPayloads toy_relay) = []" by (simp add: toy_relay_def)
  have conv: "PayloadToPayloadHeader toy_env 7 = Inr \<lparr> BlockHash = 7 \<rparr> \<and>
              ELPayloadToRESTPayload toy_env 7 = Inr 7"
    using toy_header toy_rest by simp
  note t = get_header_bad_pubkey_keeps_cache [OF toy_engine_hit u surjective_pairing]
  note c = t [THEN conjunct2, rule_format, OF conv, THEN conjunct2, rule_format, OF toy_size]
  from t [THEN conjunct1] c e
  show ?thesis by simp
qed

text \<open>
  C10. In the get-payload handler, when the value found in the cache is not of the
  REST payload form, the response has status 400 and the handler does not stop: it sets
  the JSON content type and encodes the response whose \<open>Data\<close> is nil, so the body is
  the error line followed by that encoding (or, when the encoder fails, by its error).
\<close>

theorem get_payload_failed_assertion_not_terminal:
  assumes "decodeBlindedBlock E reqBody = Inr (Some p)"
      and "length (SignedBlindedBeaconBlock.Signature p) = 96"
      and "verifySignature (BLS E) (htrBlindedBlock E) (SignedBlindedBeaconBlock.Message p)
             (latestPubkey r) (SignedBlindedBeaconBlock.Signature p) = (True, None)"
      and "fst (lru_Get (BlockHash (ExecutionPayloadHeader (Body (SignedBlindedBeaconBlock.Message p))))
                  (recentPayloads r)) = Some cached"
      and "snd (assertREST cached) = False"
  shows "\<exists>w' r'. handleGetPayload E r newResponseWriter reqBody = Served (w', r') \<and>
         status w' = StatusBadRequest \<and>
         (\<forall>s. encodeGetPayloadResponse E
                \<lparr> GetPayloadResponse.Version = ''bellatrix'', GetPayloadResponse.Data = None \<rparr> = Inr s
            \<longrightarrow> header w' ''Content-Type'' = Some ''application/json'') \<and>
         body w' = ''cannot read to payloadREST'' @ [CHR 0x0A] @
           (case encodeGetPayloadResponse E
                   \<lparr> GetPayloadResponse.Version = ''bellatrix'', GetPayloadResponse.Data = None \<rparr> of
              Inr s \<Rightarrow> s | Inl err \<Rightarrow> err) @ [CHR 0x0A]"
  using assms
  by (cases cached)
     (auto simp: handleGetPayload_def assertREST_def Encode_def Let_def http_Error_def
        Header_Set_def Write_def WriteHeader_def newResponseWriter_def
        split: prod.splits option.splits sum.splits)

theorem get_payload_failed_assertion_not_terminal_witness:
  "map_option status
     (response (handleGetPayload toy_env (toy_relay_keyed [(7, PayloadV1 5)]) newResponseWriter ''signed 7''))
     = Some StatusBadRequest \<and>
   map_option (\<lambda>w. header w ''Content-Type'')
     (response (handleGetPayload toy_env (toy_relay_keyed [(7, PayloadV1 5)]) newResponseWriter ''signed 7''))
     = Some (Some ''application/json'') \<and>
   map_option body
     (response (handleGetPayload toy_env (toy_relay_keyed [(7, PayloadV1 5)]) newResponseWriter ''signed 7''))
     = Some (''cannot read to payloadREST'' @ [CHR 0x0A] @ ''bellatrix null'' @ [CHR 0x0A])"
proof -
  let ?r = "toy_relay_keyed [(7, PayloadV1 5)]"
  have k: "latestPubkey ?r = toy_key" by (simp add: toy_relay_keyed_def)
  have hit: "fst (lru_Get (BlockHash (ExecutionPayloadHeader (Body (SignedBlindedBeaconBlock.Message
                (toy_block 7 (toy_sign toy_key (replicate 32 1))))))) (recentPayloads ?r))
             = Some (PayloadV1 5)"
    by (simp add: lru_Get_def toy_relay_keyed_def toy_block_def)
  have a: "snd (assertREST (PayloadV1 5 :: (nat, nat) cached)) = False"
    by (simp add: assertREST_def)
  have e: "encodeGetPayloadResponse toy_env
             \<lparr> GetPayloadResponse.Version = ''bellatrix'', GetPayloadResponse.Data = None \<rparr>
           = Inr ''bellatrix null''"
    by (simp add: toy_env_def)
  from get_payload_failed_assertion_not_terminal
         [OF toy_decode_signed toy_signed_length toy_signed_verifies [OF k] hit a]
  obtain w' r' where
        "handleGetPayload toy_env ?r newResponseWriter ''signed 7'' = Served (w', r')"
    and "status w' = StatusBadRequest"
    and "\<forall>s. encodeGetPayloadResponse toy_env
                \<lparr> GetPayloadResponse.Version = ''bellatrix'', GetPayloadResponse.Data = None \<rparr> = Inr s
            \<longrightarrow> header w' ''Content-Type'' = Some ''application/json''"
    and "body w' = ''cannot read to payloadREST'' @ [CHR 0x0A] @
           (case encodeGetPayloadResponse toy_env
                   \<lparr> GetPayloadResponse.Version = ''bellatrix'', GetPayloadResponse.Data = None \<rparr> of
              Inr s \<Rightarrow> s | Inl err \<Rightarrow> err) @ [CHR 0x0A]"
    by blast
  with e show ?thesis by simp
qed



text \<open>
  C5. Let a get-header request be answered with 200, and let any requests other than
  get-header follow it. A get-payload request that is then answered with 200 carries a
  block whose signature verifies under the key parsed from the pubkey of that get-header
  request: this key is the relay's last-requested pubkey at that moment, and the
  get-payload request leaves it in place. No key comes from the get-payload request.
\<close>

theorem get_payload_verifies_against_latest_pubkey:
  assumes "serve E r (GET_header vars) = Served (w1, r1)"
      and "status w1 = StatusOK"
      and "\<forall>q \<in> set qs. \<not> is_GET_header q"
      and "serve E (serve_all E r1 qs) (POST_blinded_blocks reqBody) = Served (w2, r2)"
      and "status w2 = StatusOK"
  shows "\<exists>key blk. UnmarshalText E (mux_var vars ''pubkey'') = Inr key \<and>
           latestPubkey (serve_all E r1 qs) = key \<and> latestPubkey r2 = key \<and>
           decodeBlindedBlock E reqBody = Inr (Some blk) \<and>
           verifySignature (BLS E) (htrBlindedBlock E) (SignedBlindedBeaconBlock.Message blk)
             key (SignedBlindedBeaconBlock.Signature blk) = (True, None)"
proof -
  let ?r = "serve_all E r1 qs"
  have h: "handleGetHeader E r newResponseWriter vars = (w1, r1)"
    using assms(1) by (simp add: serve_def)
  have k: "UnmarshalText E (mux_var vars ''pubkey'') = Inr (latestPubkey r1)"
    using handleGetHeader_ok_latestPubkey [of E r vars] h assms(2) by simp
  have same: "latestPubkey ?r = latestPubkey r1"
    using assms(3) by (rule serve_all_latestPubkey)
  have after: "latestPubkey r2 = latestPubkey ?r"
    using serve_latestPubkey [of "POST_blinded_blocks reqBody" ?r E] assms(4)
    by (simp add: is_GET_header_def)
  have g: "handleGetPayload E ?r newResponseWriter reqBody = Served (w2, r2)"
    using assms(4) by (simp add: serve_def)
  obtain blk where "decodeBlindedBlock E reqBody = Inr (Some blk)"
      and "verifySignature (BLS E) (htrBlindedBlock E) (SignedBlindedBeaconBlock.Message blk)
             (latestPubkey ?r) (SignedBlindedBeaconBlock.Signature blk) = (True, None)"
    using handleGetPayload_ok_verified [OF g assms(5)] by blast
  with k same after show ?thesis by simp
qed

theorem get_payload_verifies_against_latest_pubkey_witness:
  "map_option status (response (serve toy_env toy_relay (GET_header (toy_vars ''0x02'')))) = Some StatusOK \<and>
   UnmarshalText toy_env (mux_var (toy_vars ''0x02'') ''pubkey'') = Inr toy_key \<and>
   latestPubkey (serve_all toy_env
      (state_after toy_relay (serve toy_env toy_relay (GET_header (toy_vars ''0x02''))))
      [GET_status, POST_validators ''signed'']) = toy_key \<and>
   map_option status (response (serve toy_env
      (serve_all toy_env
         (state_after toy_relay (serve toy_env toy_relay (GET_header (toy_vars ''0x02''))))
         [GET_status, POST_validators ''signed''])
      (POST_blinded_blocks ''signed 7''))) = Some StatusOK \<and>
   latestPubkey (state_after toy_relay (serve toy_env
      (serve_all toy_env
         (state_after toy_relay (serve toy_env toy_relay (GET_header (toy_vars ''0x02''))))
         [GET_status, POST_validators ''signed''])
      (POST_blinded_blocks ''signed 7''))) = toy_key"
proof -
  let ?h = "handleGetHeader toy_env toy_relay newResponseWriter (toy_vars ''0x02'')"
  let ?qs = "[GET_status, POST_validators ''signed'']"
  let ?r = "serve_all toy_env (snd ?h) ?qs"
  have sa: "state_after toy_relay (serve toy_env toy_relay (GET_header (toy_vars ''0x02''))) = snd ?h"
    by (simp add: serve_def)
  have g1: "serve toy_env toy_relay (GET_header (toy_vars ''0x02'')) = Served (fst ?h, snd ?h)"
    by (simp add: serve_def)
  have s1: "status (fst ?h) = StatusOK"
    by (rule toy_get_header_status)
  have qs: "\<forall>q \<in> set ?qs. \<not> is_GET_header q" by (simp add: is_GET_header_def)
  have u: "UnmarshalText toy_env (mux_var (toy_vars ''0x02'') ''pubkey'') = Inr toy_key"
    by (simp add: toy_env_def toy_vars_def mux_var_def)
  have k: "latestPubkey ?r = toy_key"
    using serve_all_latestPubkey [OF qs, of toy_env "snd ?h"] toy_get_header_latestPubkey
    by simp
  have c: "map_of (entries (recentPayloads (snd ?h))) 7 = Some (PayloadREST 7)"
    using handleGetHeader_cached [OF toy_engine_hit toy_header toy_rest toy_size, of newResponseWriter "''0x02''"]
    by simp
  have c': "map_of (entries (recentPayloads ?r)) 7 = Some (PayloadREST 7)"
    by (simp only: serve_all_cache_lookup [OF qs] c)
  have e: "encodeGetPayloadResponse toy_env
             \<lparr> GetPayloadResponse.Version = ''bellatrix'', GetPayloadResponse.Data = Some 7 \<rparr>
           = Inr ''bellatrix payload xxxxxxx''"
    by (simp add: toy_env_def eval_nat_numeral)
  have c'': "map_of (entries (recentPayloads ?r))
               (BlockHash (ExecutionPayloadHeader (Body (SignedBlindedBeaconBlock.Message
                  (toy_block 7 (toy_sign toy_key (replicate 32 1)))))))
             = Some (PayloadREST 7)"
    using c' by (simp add: toy_block_def)
  from handleGetPayload_hit [OF toy_decode_signed toy_signed_length toy_signed_verifies [OF k] c'' e]
  obtain w2 r2 where g2: "handleGetPayload toy_env ?r newResponseWriter ''signed 7'' = Served (w2, r2)"
    and s2: "status w2 = StatusOK"
    by blast
  have g2': "serve toy_env ?r (POST_blinded_blocks ''signed 7'') = Served (w2, r2)"
    using g2 by (simp add: serve_def)
  from get_payload_verifies_against_latest_pubkey [OF g1 s1 qs g2' s2] u
  have k2: "latestPubkey r2 = toy_key" by auto
  from g1 s1 u k g2' s2 k2 show ?thesis by (simp add: sa)
qed
section \<open>Properties of the driver\<close>

lemma continues_Some:
  "continues r = Some d' \<longleftrightarrow> (\<forall>code. fst r \<noteq> Exit code) \<and> fst r \<noteq> DivideByZero \<and> d' = snd r"
  by (cases "fst r") (auto simp: continues_def)

lemma triple_payloadId [simp]: "triple (d\<lparr>payloadId := x\<rparr>) = triple d"
  by (simp add: triple_def)

lemma background_triple [simp]: "triple (snd (background c e slot block safe final d)) = triple d"
  by (simp add: background_def Let_def split: sum.splits option.splits)

lemma background_not_exit: "SlotBound c = 0 \<Longrightarrow> fst (background c e slot block safe final d) \<noteq> Exit code"
  by (simp add: background_def Let_def split: sum.splits option.splits)

lemma background_not_panic [simp]: "fst (background c e slot block safe final d) \<noteq> DivideByZero"
  by (simp add: background_def Let_def split: sum.splits option.splits)

lemma produce_triple [simp]: "triple (snd (produce c e slot d)) = triple d"
  by (simp add: produce_def Let_def split: sum.splits option.splits prod.splits)

lemma produce_not_exit: "SlotBound c = 0 \<Longrightarrow> fst (produce c e slot d) \<noteq> Exit code"
  by (simp add: produce_def Let_def background_not_exit split: sum.splits option.splits prod.splits)

lemma produce_not_panic [simp]: "fst (produce c e slot d) \<noteq> DivideByZero"
  by (simp add: produce_def Let_def split: sum.splits option.splits prod.splits)

lemma tick_not_exit:
  "SlotBound c = 0 \<Longrightarrow> fst (RunNode_tick c e s d) \<noteq> Exit code"
  by (simp add: RunNode_tick_def Let_def produce_not_exit)

lemma tick_not_panic:
  "0 < SlotsPerEpoch c \<Longrightarrow> fst (RunNode_tick c e s d) \<noteq> DivideByZero"
  by (simp add: RunNode_tick_def Let_def)

lemma tick_genesis:
  "RunNode_tick c e 0 d = (Genesis, d\<lparr>safeHash := CurrentHeader_Hash e\<rparr>)"
  by (simp add: RunNode_tick_def)

lemma tick_triple_continues:
  assumes "0 < s" and "continues (RunNode_tick c e s d) = Some d'"
  shows "0 < SlotsPerEpoch c \<and>
         triple d' = (if nat s mod SlotsPerEpoch c = 0
                      then (nextFinalized d, nextFinalized d, CurrentHeader_Hash e)
                      else triple d)"
proof -
  from assms(2) have ne: "fst (RunNode_tick c e s d) \<noteq> Exit 0"
      and np: "fst (RunNode_tick c e s d) \<noteq> DivideByZero"
      and d': "d' = snd (RunNode_tick c e s d)"
    by (simp_all add: continues_Some)
  from assms(1) ne have nb: "\<not> (SlotBound c > 0 \<and> nat s > SlotBound c)"
    by (auto simp: RunNode_tick_def Let_def)
  from assms(1) np nb have E: "0 < SlotsPerEpoch c"
    by (cases "SlotsPerEpoch c = 0") (auto simp: RunNode_tick_def Let_def)
  from assms(1) nb E have
    "RunNode_tick c e s d =
       (if nat s mod SlotsPerEpoch c = 0
        then produce c e (nat s) (rotate_hashes (CurrentHeader_Hash e) d)
        else produce c e (nat s) d)"
    by (auto simp: RunNode_tick_def Let_def)
  with d' have "triple d' =
       (if nat s mod SlotsPerEpoch c = 0
        then triple (rotate_hashes (CurrentHeader_Hash e) d) else triple d)"
    by simp
  with E show ?thesis by (simp add: rotate_hashes_def triple_def)
qed

lemma boundary_Suc:
  assumes "0 < SlotsPerEpoch c"
  shows "boundary c (Suc n) = (if Suc n mod SlotsPerEpoch c = 0 then Suc n else boundary c n)"
proof (cases "Suc n mod SlotsPerEpoch c = 0")
  case True
  then have "Suc n div SlotsPerEpoch c * SlotsPerEpoch c = Suc n" by auto
  with True show ?thesis by (simp add: boundary_def)
next
  case False
  then show ?thesis by (simp add: boundary_def div_Suc)
qed

lemma boundary_prev:
  assumes "0 < SlotsPerEpoch c" and "Suc n mod SlotsPerEpoch c = 0"
  shows "boundary c n + SlotsPerEpoch c = Suc n"
proof -
  have "Suc n = (Suc n div SlotsPerEpoch c) * SlotsPerEpoch c"
    using assms(2) by auto
  moreover have "Suc n div SlotsPerEpoch c = Suc (n div SlotsPerEpoch c)"
    using assms by (simp add: div_Suc)
  ultimately show ?thesis by (simp add: boundary_def)
qed

lemma RunNode_slots_triple:
  "RunNode_slots c env n d0 = Some d \<Longrightarrow> 0 < n \<Longrightarrow>
     0 < SlotsPerEpoch c \<and> triple d = triple_after c env n d0"
proof (induction n arbitrary: d)
  case 0
  then show ?case by simp
next
  case (Suc n)
  from Suc.prems(1) obtain d1 where run: "RunNode_slots c env n d0 = Some d1"
      and step: "continues (RunNode_tick c (env (Suc n)) (int (Suc n)) d1) = Some d"
    by (auto split: option.splits)
  have pos: "0 < int (Suc n)" by simp
  note tt = tick_triple_continues [OF pos step, unfolded nat_int]
  from tt have E: "0 < SlotsPerEpoch c" by (rule conjunct1)
  from tt have t: "triple d = (if Suc n mod SlotsPerEpoch c = 0
                 then (nextFinalized d1, nextFinalized d1, CurrentHeader_Hash (env (Suc n)))
                 else triple d1)"
    by (rule conjunct2)
  have prev: "triple d1 = triple_after c env n d0"
  proof (cases n)
    case 0
    with run have "d1 = d0\<lparr>safeHash := CurrentHeader_Hash (env 0)\<rparr>"
      by (simp add: tick_genesis continues_def)
    with 0 show ?thesis by (simp add: triple_after_def Let_def triple_def boundary_def)
  next
    case (Suc m)
    with Suc.IH [OF run] show ?thesis by simp
  qed
  show ?case
  proof (cases "Suc n mod SlotsPerEpoch c = 0")
    case False
    with t prev E show ?thesis by (simp add: triple_after_def Let_def boundary_Suc)
  next
    case True
    from boundary_prev [OF E True] have b: "boundary c n + SlotsPerEpoch c = Suc n" .
    from prev have nf: "nextFinalized d1 =
        (if boundary c n = 0 then nextFinalized d0 else CurrentHeader_Hash (env (boundary c n)))"
      by (auto simp: triple_after_def triple_def Let_def split: if_splits)
    from boundary_Suc [OF E, of n] True have bS: "boundary c (Suc n) = Suc n" by simp
    from t True have td: "triple d =
        (nextFinalized d1, nextFinalized d1, CurrentHeader_Hash (env (Suc n)))"
      by simp
    have "triple d = triple_after c env (Suc n) d0"
    proof (cases "boundary c n = 0")
      case True
      with b have eq: "Suc n = SlotsPerEpoch c" by simp
      have "triple_after c env (Suc n) d0 =
          (nextFinalized d0, nextFinalized d0, CurrentHeader_Hash (env (Suc n)))"
        unfolding triple_after_def Let_def bS using eq by simp
      with td nf True show ?thesis by simp
    next
      case False
      with b have neq: "Suc n \<noteq> SlotsPerEpoch c" and sub: "Suc n - SlotsPerEpoch c = boundary c n"
        by simp_all
      have "triple_after c env (Suc n) d0 =
          (CurrentHeader_Hash (env (boundary c n)), CurrentHeader_Hash (env (boundary c n)),
           CurrentHeader_Hash (env (Suc n)))"
        unfolding triple_after_def Let_def bS using neq sub by simp
      with td nf False show ?thesis by simp
    qed
    with E show ?thesis by simp
  qed
qed

lemma RunNode_slots_total:
  "SlotBound c = 0 \<Longrightarrow> 0 < SlotsPerEpoch c \<Longrightarrow> RunNode_slots c env n d0 \<noteq> None"
proof (induction n)
  case 0
  then show ?case by (simp add: tick_genesis continues_def)
next
  case (Suc n)
  then obtain d1 where "RunNode_slots c env n d0 = Some d1" by auto
  moreover have "continues (RunNode_tick c (env (Suc n)) (int (Suc n)) d1) =
      Some (snd (RunNode_tick c (env (Suc n)) (int (Suc n)) d1))"
    using Suc.prems by (simp add: continues_Some tick_not_exit tick_not_panic)
  ultimately show ?case by simp
qed

lemma boundary_ge:
  assumes "0 < SlotsPerEpoch c" and "k * SlotsPerEpoch c \<le> n"
  shows "k * SlotsPerEpoch c \<le> boundary c n"
proof -
  have "k \<le> n div SlotsPerEpoch c"
    using assms by (simp add: less_eq_div_iff_mult_less_eq)
  then show ?thesis by (simp add: boundary_def)
qed

lemma background_pending:
  "length (payloadId (snd (background c e slot block safe final d))) \<le> Suc (length (payloadId d))"
  by (simp add: background_def Let_def split: sum.splits option.splits)

lemma produce_pending:
  "length (payloadId d) \<le> 1 \<Longrightarrow> length (payloadId (snd (produce c e slot d))) \<le> 1"
  using background_pending [of c e slot _ "safeHash d" "finalizedHash d" d]
  by (cases "payloadId d")
     (auto simp: produce_def Let_def le_Suc_eq split: sum.splits)

lemma rotate_hashes_payloadId [simp]: "payloadId (rotate_hashes h d) = payloadId d"
  by (simp add: rotate_hashes_def Let_def)

lemma tick_pending:
  assumes "length (payloadId d) \<le> 1"
  shows "length (payloadId (snd (RunNode_tick c e s d))) \<le> 1"
proof -
  have "length (payloadId (snd (produce c e (nat s) d))) \<le> 1"
    using assms by (rule produce_pending)
  moreover have "length (payloadId (snd (produce c e (nat s)
      (rotate_hashes (CurrentHeader_Hash e) d)))) \<le> 1"
    using assms by (intro produce_pending) simp
  ultimately show ?thesis
    using assms unfolding RunNode_tick_def Let_def by (simp del: One_nat_def)
qed

lemma RunNode_slots_pending:
  "RunNode_slots c env n RunNode_init = Some d \<Longrightarrow> length (payloadId d) \<le> 1"
proof (induction n arbitrary: d)
  case 0
  then show ?case by (auto simp: tick_genesis continues_def RunNode_init_def)
next
  case (Suc n)
  then obtain d1 where run: "RunNode_slots c env n RunNode_init = Some d1"
      and step: "continues (RunNode_tick c (env (Suc n)) (int (Suc n)) d1) = Some d"
    by (auto split: option.splits)
  from Suc.IH [OF run]
  have "length (payloadId (snd (RunNode_tick c (env (Suc n)) (int (Suc n)) d1))) \<le> 1"
    by (rule tick_pending)
  moreover from step have "d = snd (RunNode_tick c (env (Suc n)) (int (Suc n)) d1)"
    by (simp add: continues_Some)
  ultimately show ?case by simp
qed

lemma tick_steady:
  assumes "0 < s" and "0 < SlotsPerEpoch c" and "\<not> (0 < SlotBound c \<and> SlotBound c < nat s)"
  shows "RunNode_tick c e s d =
           produce c e (nat s)
             (if nat s mod SlotsPerEpoch c = 0 then rotate_hashes (CurrentHeader_Hash e) d else d)"
  using assms by (auto simp: RunNode_tick_def Let_def)

text \<open>The concrete driver, evaluated.\<close>

lemmas toy_driver_defs = toy_cmd_def toy_tick_env_def RunNode_init_def

lemma toy_cmd_simps:
  "SlotsPerEpoch toy_cmd = 2" "SlotBound toy_cmd = 0" "boundary toy_cmd 4 = 4"
  by (simp_all add: toy_cmd_def boundary_def)

lemma toy_run_4:
  "map_option triple (RunNode_slots toy_cmd toy_tick_env 4 RunNode_init) = Some (102, 102, 104)"
proof -
  have E: "0 < SlotsPerEpoch toy_cmd" and B: "SlotBound toy_cmd = 0"
    by (simp_all add: toy_cmd_def)
  from RunNode_slots_total [OF B E, of toy_tick_env 4 RunNode_init]
  obtain d where run: "RunNode_slots toy_cmd toy_tick_env 4 RunNode_init = Some d" by auto
  have b: "boundary toy_cmd 4 = 4" by (simp add: boundary_def toy_cmd_def)
  from RunNode_slots_triple [OF run] have "triple d = triple_after toy_cmd toy_tick_env 4 RunNode_init"
    by simp
  also have "\<dots> = (102, 102, 104)"
    by (simp add: triple_after_def Let_def toy_cmd_simps toy_tick_env_def RunNode_init_def)
  finally show ?thesis using run by simp
qed

text \<open>
  C2, as amended. With a positive number of slots per epoch: a tick at an epoch-boundary
  slot that does not end the process leaves \<open>finalized\<close> and \<open>safe\<close> both equal to the
  old \<open>nextFinalized\<close>, and \<open>nextFinalized\<close> equal to the current head. Consequently,
  when the ticks of the slots \<open>0, ..., n\<close> have been handled, one per slot, and at least
  two boundaries have passed, \<open>finalized\<close> and \<open>safe\<close> are both the head seen at the
  boundary before the latest one, and \<open>nextFinalized\<close> is the head seen at the latest
  boundary. With no slot bound the process does not end on the way.
\<close>

theorem epoch_rotation:
  assumes "0 < SlotsPerEpoch c"
  shows "(0 < s \<and> nat s mod SlotsPerEpoch c = 0 \<and> continues (RunNode_tick c e s d) = Some d1 \<longrightarrow>
            triple d1 = (nextFinalized d, nextFinalized d, CurrentHeader_Hash e)) \<and>
         (2 * SlotsPerEpoch c \<le> n \<and> RunNode_slots c env n d0 = Some d' \<longrightarrow>
            finalizedHash d' = CurrentHeader_Hash (env (boundary c n - SlotsPerEpoch c)) \<and>
            safeHash d' = CurrentHeader_Hash (env (boundary c n - SlotsPerEpoch c)) \<and>
            nextFinalized d' = CurrentHeader_Hash (env (boundary c n))) \<and>
         (SlotBound c = 0 \<longrightarrow> RunNode_slots c env n d0 \<noteq> None)"
proof (intro conjI impI)
  assume a: "0 < s \<and> nat s mod SlotsPerEpoch c = 0 \<and> continues (RunNode_tick c e s d) = Some d1"
  then have "0 < s" and "continues (RunNode_tick c e s d) = Some d1" by simp_all
  from tick_triple_continues [OF this] a
  show "triple d1 = (nextFinalized d, nextFinalized d, CurrentHeader_Hash e)"
    by simp
next
  assume a: "2 * SlotsPerEpoch c \<le> n \<and> RunNode_slots c env n d0 = Some d'"
  then have n: "2 * SlotsPerEpoch c \<le> n" and run: "RunNode_slots c env n d0 = Some d'"
    by simp_all
  from n assms have "0 < n" by simp
  from RunNode_slots_triple [OF run this] have t: "triple d' = triple_after c env n d0" by simp
  from boundary_ge [OF assms n] assms
  have "boundary c n \<noteq> 0" and "boundary c n \<noteq> SlotsPerEpoch c" by simp_all
  with t have "triple d' =
      (CurrentHeader_Hash (env (boundary c n - SlotsPerEpoch c)),
       CurrentHeader_Hash (env (boundary c n - SlotsPerEpoch c)),
       CurrentHeader_Hash (env (boundary c n)))"
    by (simp add: triple_after_def Let_def)
  then show "finalizedHash d' = CurrentHeader_Hash (env (boundary c n - SlotsPerEpoch c))"
    and "safeHash d' = CurrentHeader_Hash (env (boundary c n - SlotsPerEpoch c))"
    and "nextFinalized d' = CurrentHeader_Hash (env (boundary c n))"
    by (simp_all add: triple_def)
next
  assume "SlotBound c = 0"
  from RunNode_slots_total [OF this assms] show "RunNode_slots c env n d0 \<noteq> None" .
qed

theorem epoch_rotation_witness:
  "map_option triple (continues (RunNode_tick toy_cmd (toy_tick_env 4) 4 RunNode_init))
     = Some (0, 0, 104) \<and>
   map_option triple (RunNode_slots toy_cmd toy_tick_env 4 RunNode_init) = Some (102, 102, 104)"
proof -
  have E: "0 < SlotsPerEpoch toy_cmd" by (simp add: toy_cmd_simps)
  have "continues (RunNode_tick toy_cmd (toy_tick_env 4) 4 RunNode_init) \<noteq> None"
    by (simp add: continues_Some tick_not_exit tick_not_panic toy_cmd_simps)
  then obtain d1 where c: "continues (RunNode_tick toy_cmd (toy_tick_env 4) 4 RunNode_init) = Some d1"
    by auto
  from RunNode_slots_total [of toy_cmd toy_tick_env 4 RunNode_init]
  obtain d' where run: "RunNode_slots toy_cmd toy_tick_env 4 RunNode_init = Some d'"
    by (auto simp: toy_cmd_simps)
  have s: "(0::int) < 4 \<and> nat 4 mod SlotsPerEpoch toy_cmd = 0 \<and>
           continues (RunNode_tick toy_cmd (toy_tick_env 4) 4 RunNode_init) = Some d1"
    using c by (simp add: toy_cmd_simps)
  have n: "2 * SlotsPerEpoch toy_cmd \<le> 4 \<and>
           RunNode_slots toy_cmd toy_tick_env 4 RunNode_init = Some d'"
    using run by (simp add: toy_cmd_simps)
  note t = epoch_rotation [OF E, of 4 "toy_tick_env 4" RunNode_init d1 4 toy_tick_env RunNode_init d']
  from t [THEN conjunct1, rule_format, OF s]
  have "triple d1 = (0, 0, 104)"
    by (simp add: toy_tick_env_def RunNode_init_def)
  with c have one: "map_option triple (continues (RunNode_tick toy_cmd (toy_tick_env 4) 4 RunNode_init))
      = Some (0, 0, 104)"
    by simp
  from t [THEN conjunct2, THEN conjunct1, rule_format, OF n]
  have "triple d' = (102, 102, 104)"
    by (simp add: toy_cmd_simps triple_def toy_tick_env_def)
  with run have "map_option triple (RunNode_slots toy_cmd toy_tick_env 4 RunNode_init)
      = Some (102, 102, 104)"
    by simp
  with one show ?thesis by simp
qed

text \<open>
  C2 as stated fails. With two slots per epoch and the head \<open>100 + s\<close> at slot \<open>s\<close>,
  after the slots \<open>0, ..., 4\<close> both \<open>finalized\<close> and \<open>safe\<close> are \<open>102\<close>, the head seen at
  slot 2. The heads seen at the boundaries 0, 2 and 4 differ, so \<open>finalized\<close> and \<open>safe\<close>
  are not the heads of two successive boundaries, whichever boundary counts as one ago.
\<close>

theorem epoch_rotation_counterexample:
  "map_option (spec_rotation toy_cmd toy_tick_env 4 0)
     (RunNode_slots toy_cmd toy_tick_env 4 RunNode_init) = Some False \<and>
   map_option (spec_rotation toy_cmd toy_tick_env 4 1)
     (RunNode_slots toy_cmd toy_tick_env 4 RunNode_init) = Some False"
proof -
  from toy_run_4 obtain d where run: "RunNode_slots toy_cmd toy_tick_env 4 RunNode_init = Some d"
      and t: "triple d = (102, 102, 104)"
    by auto
  have b: "boundary toy_cmd 4 = 4" by (simp add: boundary_def toy_cmd_def)
  from t have "\<not> spec_rotation toy_cmd toy_tick_env 4 0 d" "\<not> spec_rotation toy_cmd toy_tick_env 4 1 d"
    by (simp_all add: spec_rotation_def toy_cmd_simps triple_def toy_tick_env_def)
  with run show ?thesis by simp
qed

text \<open>
  C3, as amended. In a run in which each slot's background work is done before the next
  tick, at most one payload id is pending: a tick keeps it so, and it is so after any
  run from the initial state. On a tick of a positive slot that goes on to block
  production: when the gap-slot branch is taken, nothing is pending afterwards (a
  pending value is dropped inside that branch); when neither the gap-slot nor the
  invalid-hash branch is taken, a pending value is received after the reorg decision
  and starts the proposal of this slot.
\<close>

theorem payload_id_handoff:
  assumes "length (payloadId d) \<le> 1"
  shows "length (payloadId (snd (RunNode_tick c e s d))) \<le> 1 \<and>
         (\<forall>d'. RunNode_slots c env n RunNode_init = Some d' \<longrightarrow> length (payloadId d') \<le> 1) \<and>
         (0 < s \<and> 0 < SlotsPerEpoch c \<and> \<not> (0 < SlotBound c \<and> SlotBound c < nat s) \<longrightarrow>
            (RNG_gap e < GapSlot c \<longrightarrow>
               fst (RunNode_tick c e s d) = GapSlotMocked \<and>
               payloadId (snd (RunNode_tick c e s d)) = []) \<and>
            (\<forall>pid. payloadId d = [pid] \<and> \<not> RNG_gap e < GapSlot c \<and>
                   \<not> RNG_invalid e < InvalidHashFreq c \<longrightarrow>
               fst (RunNode_tick c e s d) = Proposal pid (nat s) \<and>
               payloadId (snd (RunNode_tick c e s d)) = []))"
proof (intro conjI impI allI)
  show "length (payloadId (snd (RunNode_tick c e s d))) \<le> 1"
    using assms by (rule tick_pending)
next
  fix d' assume "RunNode_slots c env n RunNode_init = Some d'"
  then show "length (payloadId d') \<le> 1" by (rule RunNode_slots_pending)
next
  assume st: "0 < s \<and> 0 < SlotsPerEpoch c \<and> \<not> (0 < SlotBound c \<and> SlotBound c < nat s)"
    and gap: "RNG_gap e < GapSlot c"
  from st have eq: "RunNode_tick c e s d =
      produce c e (nat s)
        (if nat s mod SlotsPerEpoch c = 0 then rotate_hashes (CurrentHeader_Hash e) d else d)"
    by (intro tick_steady) simp_all
  from gap show "fst (RunNode_tick c e s d) = GapSlotMocked"
    unfolding eq by (simp add: produce_def)
  from gap assms show "payloadId (snd (RunNode_tick c e s d)) = []"
    unfolding eq by (cases "payloadId d") (auto simp: produce_def)
next
  fix pid
  assume st: "0 < s \<and> 0 < SlotsPerEpoch c \<and> \<not> (0 < SlotBound c \<and> SlotBound c < nat s)"
    and p: "payloadId d = [pid] \<and> \<not> RNG_gap e < GapSlot c \<and> \<not> RNG_invalid e < InvalidHashFreq c"
  from st have eq: "RunNode_tick c e s d =
      produce c e (nat s)
        (if nat s mod SlotsPerEpoch c = 0 then rotate_hashes (CurrentHeader_Hash e) d else d)"
    by (intro tick_steady) simp_all
  from p show "fst (RunNode_tick c e s d) = Proposal pid (nat s)"
    unfolding eq by (simp add: produce_def Let_def)
  from p show "payloadId (snd (RunNode_tick c e s d)) = []"
    unfolding eq by (simp add: produce_def Let_def)
qed

theorem payload_id_handoff_witness:
  "length (payloadId (snd (RunNode_tick toy_cmd (toy_tick_env 5) 5 (RunNode_init\<lparr>payloadId := [7]\<rparr>)))) \<le> 1 \<and>
   (case RunNode_slots toy_cmd toy_tick_env 3 RunNode_init of
      None \<Rightarrow> False | Some d' \<Rightarrow> length (payloadId d') \<le> 1) \<and>
   fst (RunNode_tick (toy_cmd\<lparr>GapSlot := 1\<rparr>) (toy_tick_env 5) 5 (RunNode_init\<lparr>payloadId := [7]\<rparr>))
     = GapSlotMocked \<and>
   payloadId (snd (RunNode_tick (toy_cmd\<lparr>GapSlot := 1\<rparr>) (toy_tick_env 5) 5
     (RunNode_init\<lparr>payloadId := [7]\<rparr>))) = [] \<and>
   fst (RunNode_tick toy_cmd (toy_tick_env 5) 5 (RunNode_init\<lparr>payloadId := [7]\<rparr>)) = Proposal 7 5 \<and>
   payloadId (snd (RunNode_tick toy_cmd (toy_tick_env 5) 5 (RunNode_init\<lparr>payloadId := [7]\<rparr>))) = []"
proof -
  let ?d = "RunNode_init\<lparr>payloadId := [7]\<rparr>"
  have len: "length (payloadId ?d) \<le> 1" by simp
  have st: "(0::int) < 5 \<and> 0 < SlotsPerEpoch toy_cmd \<and>
            \<not> (0 < SlotBound toy_cmd \<and> SlotBound toy_cmd < nat 5)"
    by (simp add: toy_cmd_simps)
  have st': "(0::int) < 5 \<and> 0 < SlotsPerEpoch (toy_cmd\<lparr>GapSlot := 1\<rparr>) \<and>
            \<not> (0 < SlotBound (toy_cmd\<lparr>GapSlot := 1\<rparr>) \<and> SlotBound (toy_cmd\<lparr>GapSlot := 1\<rparr>) < nat 5)"
    by (simp add: toy_cmd_simps)
  have gap: "RNG_gap (toy_tick_env 5) < GapSlot (toy_cmd\<lparr>GapSlot := 1\<rparr>)"
    by (simp add: toy_tick_env_def)
  have nogap: "payloadId ?d = [7] \<and> \<not> RNG_gap (toy_tick_env 5) < GapSlot toy_cmd \<and>
               \<not> RNG_invalid (toy_tick_env 5) < InvalidHashFreq toy_cmd"
    by (simp add: toy_tick_env_def toy_cmd_def)
  from RunNode_slots_total [of toy_cmd toy_tick_env 3 RunNode_init]
  obtain d' where run: "RunNode_slots toy_cmd toy_tick_env 3 RunNode_init = Some d'"
    by (auto simp: toy_cmd_simps)
  note a = payload_id_handoff [OF len, of toy_cmd "toy_tick_env 5" 5 toy_tick_env 3]
  note b = payload_id_handoff [OF len, of "toy_cmd\<lparr>GapSlot := 1\<rparr>" "toy_tick_env 5" 5 toy_tick_env 3]
  from a have 1: "length (payloadId (snd (RunNode_tick toy_cmd (toy_tick_env 5) 5 ?d))) \<le> 1"
    by (rule conjunct1)
  from a [THEN conjunct2, THEN conjunct1, rule_format, OF run]
  have 2: "length (payloadId d') \<le> 1" .
  note b' = b [THEN conjunct2, THEN conjunct2, rule_format, OF st', THEN conjunct1, rule_format, OF gap]
  from b' have 3: "fst (RunNode_tick (toy_cmd\<lparr>GapSlot := 1\<rparr>) (toy_tick_env 5) 5 ?d) = GapSlotMocked"
    and 4: "payloadId (snd (RunNode_tick (toy_cmd\<lparr>GapSlot := 1\<rparr>) (toy_tick_env 5) 5 ?d)) = []"
    by simp_all
  note a' = a [THEN conjunct2, THEN conjunct2, rule_format, OF st, THEN conjunct2, rule_format, OF nogap]
  from a' have 5: "fst (RunNode_tick toy_cmd (toy_tick_env 5) 5 ?d) = Proposal 7 (nat 5)"
    and 6: "payloadId (snd (RunNode_tick toy_cmd (toy_tick_env 5) 5 ?d)) = []"
    by simp_all
  from 1 2 3 4 5 6 run show ?thesis by simp
qed

text \<open>
  C3 as stated fails. With the value \<open>7\<close> pending, a tick of slot 5 that takes neither
  the gap-slot nor the invalid-hash branch does not go as it would with nothing
  pending: the value is not dropped, it starts the proposal of the slot, where with
  nothing pending an external block is built.
\<close>

theorem payload_id_handoff_counterexample:
  "\<not> spec_drained_first toy_cmd (toy_tick_env 5) 5 (RunNode_init\<lparr>payloadId := [7]\<rparr>) \<and>
   fst (RunNode_tick toy_cmd (toy_tick_env 5) 5 (RunNode_init\<lparr>payloadId := [7]\<rparr>)) = Proposal 7 5 \<and>
   fst (RunNode_tick toy_cmd (toy_tick_env 5) 5 (RunNode_init\<lparr>payloadId := []\<rparr>)) = ExternalBlock 106"
proof -
  have a: "fst (RunNode_tick toy_cmd (toy_tick_env 5) 5 (RunNode_init\<lparr>payloadId := [7]\<rparr>)) = Proposal 7 5"
    by (simp add: RunNode_tick_def produce_def toy_driver_defs)
  have b: "fst (RunNode_tick toy_cmd (toy_tick_env 5) 5 (RunNode_init\<lparr>payloadId := []\<rparr>)) = ExternalBlock 106"
    by (simp add: RunNode_tick_def produce_def background_def sendForkchoiceUpdated_def toy_driver_defs)
  have "\<not> spec_drained_first toy_cmd (toy_tick_env 5) 5 (RunNode_init\<lparr>payloadId := [7]\<rparr>)"
  proof
    assume "spec_drained_first toy_cmd (toy_tick_env 5) 5 (RunNode_init\<lparr>payloadId := [7]\<rparr>)"
    then have "fst (RunNode_tick toy_cmd (toy_tick_env 5) 5 (RunNode_init\<lparr>payloadId := [7]\<rparr>)) =
               fst (RunNode_tick toy_cmd (toy_tick_env 5) 5 (RunNode_init\<lparr>payloadId := []\<rparr>))"
      by (simp add: spec_drained_first_def)
    with a b show False by simp
  qed
  with a b show ?thesis by simp
qed

section \<open>Properties of the slot arithmetic\<close>

text \<open>Rounding to \<open>float64\<close>: the exponent, the error, and the values that are exact.\<close>

lemma round_even_error: "\<bar>of_int (round_even x) - x\<bar> \<le> 1/2"
  unfolding round_even_def Let_def by (simp add: abs_le_iff)

lemma round_even_of_int [simp]: "round_even (of_int n) = n"
  by (simp add: round_even_def)

lemma bitlen_pow_bounds:
  assumes "0 < m"
  shows "(2::real) powi (bitlen m - 1) \<le> of_int m" and "of_int m < (2::real) powi bitlen m"
proof -
  from bitlen_bounds [OF assms] have a: "2 ^ nat (bitlen m - 1) \<le> m" and b: "m < 2 ^ nat (bitlen m)"
    by simp_all
  from assms have ge: "1 \<le> bitlen m" by (auto simp: bitlen_alt_def)
  have "(2::real) powi (bitlen m - 1) = 2 ^ nat (bitlen m - 1)"
    using ge by (simp add: power_int_def)
  also have "\<dots> = of_int (2 ^ nat (bitlen m - 1))" by simp
  also have "\<dots> \<le> of_int m" using a by (simp only: of_int_le_iff)
  finally show "(2::real) powi (bitlen m - 1) \<le> of_int m" .
  have "of_int m < (of_int (2 ^ nat (bitlen m)) :: real)" using b by (simp only: of_int_less_iff)
  also have "\<dots> = 2 powi bitlen m" using ge by (simp add: power_int_def)
  finally show "of_int m < (2::real) powi bitlen m" .
qed

lemma float64_exponent_bounds:
  assumes "r \<noteq> 0"
  shows "(2::real) powi float64_exponent r \<le> \<bar>r\<bar>" and "\<bar>r\<bar> < (2::real) powi (float64_exponent r + 1)"
proof -
  show "(2::real) powi float64_exponent r \<le> \<bar>r\<bar>"
  proof (cases "1 \<le> \<bar>r\<bar>")
    case True
    then have m: "0 < \<lfloor>\<bar>r\<bar>\<rfloor>" by linarith
    from bitlen_pow_bounds(1) [OF m] have "(2::real) powi (bitlen \<lfloor>\<bar>r\<bar>\<rfloor> - 1) \<le> of_int \<lfloor>\<bar>r\<bar>\<rfloor>" .
    also have "\<dots> \<le> \<bar>r\<bar>" by linarith
    finally show ?thesis using True by (simp add: float64_exponent_def)
  next
    case False
    let ?q = "1 / \<bar>r\<bar>"
    let ?m = "\<lceil>?q\<rceil> - 1"
    from False assms have q: "1 < ?q" by simp
    then have m: "0 < ?m" by linarith
    have "?q \<le> of_int ?m + 1" by (simp add: le_of_int_ceiling)
    also have "\<dots> \<le> (2::real) powi bitlen ?m"
    proof -
      from bitlen_bounds [OF m] have "?m + 1 \<le> 2 ^ nat (bitlen ?m)" by simp
      then have "(of_int (?m + 1) :: real) \<le> of_int (2 ^ nat (bitlen ?m))"
        by (simp only: of_int_le_iff)
      moreover have "0 \<le> bitlen ?m" by (rule bitlen_nonneg)
      ultimately show ?thesis by (simp add: power_int_def)
    qed
    finally have "?q \<le> (2::real) powi bitlen ?m" .
    then have "1 / ((2::real) powi bitlen ?m) \<le> \<bar>r\<bar>"
      using assms by (simp add: field_simps)
    then show ?thesis using False by (simp add: float64_exponent_def power_int_minus_divide)
  qed
  show "\<bar>r\<bar> < (2::real) powi (float64_exponent r + 1)"
  proof (cases "1 \<le> \<bar>r\<bar>")
    case True
    then have m: "0 < \<lfloor>\<bar>r\<bar>\<rfloor>" by linarith
    have "\<bar>r\<bar> < of_int (\<lfloor>\<bar>r\<bar>\<rfloor> + 1)" by linarith
    also have "\<dots> \<le> (2::real) powi bitlen \<lfloor>\<bar>r\<bar>\<rfloor>"
    proof -
      from bitlen_bounds [OF m] have "\<lfloor>\<bar>r\<bar>\<rfloor> + 1 \<le> 2 ^ nat (bitlen \<lfloor>\<bar>r\<bar>\<rfloor>)" by simp
      then have "(of_int (\<lfloor>\<bar>r\<bar>\<rfloor> + 1) :: real) \<le> of_int (2 ^ nat (bitlen \<lfloor>\<bar>r\<bar>\<rfloor>))"
        by (simp only: of_int_le_iff)
      moreover have "0 \<le> bitlen \<lfloor>\<bar>r\<bar>\<rfloor>" by (rule bitlen_nonneg)
      ultimately show ?thesis by (simp add: power_int_def)
    qed
    finally show ?thesis using True by (simp add: float64_exponent_def)
  next
    case False
    let ?q = "1 / \<bar>r\<bar>"
    let ?m = "\<lceil>?q\<rceil> - 1"
    from False assms have q: "1 < ?q" by simp
    then have m: "0 < ?m" by linarith
    from bitlen_pow_bounds(1) [OF m] have "(2::real) powi (bitlen ?m - 1) \<le> of_int ?m" .
    also have "\<dots> < ?q" by linarith
    finally have "(2::real) powi (bitlen ?m - 1) < 1 / \<bar>r\<bar>" .
    then have "\<bar>r\<bar> < 1 / ((2::real) powi (bitlen ?m - 1))"
      using assms by (simp add: field_simps)
    also have "\<dots> = 2 powi (- (bitlen ?m - 1))" by (simp only: power_int_minus_divide)
    finally show ?thesis using False by (simp add: float64_exponent_def)
  qed
qed


lemma powi2_less_cancel: "(2::real) powi a < 2 powi b \<Longrightarrow> a < b"
  using power_int_increasing [of b a "2::real"] by (cases "a < b") auto

lemma float64_exponent_less:
  assumes "r \<noteq> 0" and "\<bar>r\<bar> < 2 powi k"
  shows "float64_exponent r < k"
proof -
  from float64_exponent_bounds(1) [OF assms(1)] assms(2)
  have "(2::real) powi float64_exponent r < 2 powi k" by simp
  then show ?thesis by (rule powi2_less_cancel)
qed

lemma float64_exponent_ge:
  assumes "r \<noteq> 0" and "2 powi k \<le> \<bar>r\<bar>"
  shows "k \<le> float64_exponent r"
proof -
  from float64_exponent_bounds(2) [OF assms(1)] assms(2)
  have "(2::real) powi k < 2 powi (float64_exponent r + 1)" by simp
  then have "k < float64_exponent r + 1" by (rule powi2_less_cancel)
  then show ?thesis by simp
qed

lemma float64_unfold:
  assumes "r \<noteq> 0" and "- 1022 \<le> float64_exponent r"
  shows "float64 r = of_int (round_even (r / 2 powi (float64_exponent r - 52))) *
           2 powi (float64_exponent r - 52)"
  using assms by (simp add: float64_def Let_def max_def)

lemma float64_error:
  assumes "r \<noteq> 0" and "- 1022 \<le> float64_exponent r"
  shows "\<bar>float64 r - r\<bar> \<le> \<bar>r\<bar> * 2 powi (- 53)"
proof -
  let ?e = "float64_exponent r"
  let ?u = "(2::real) powi (?e - 52)"
  have u: "0 < ?u" by simp
  have "float64 r - r = (of_int (round_even (r / ?u)) - r / ?u) * ?u"
    using u by (simp add: float64_unfold [OF assms] field_simps)
  then have "\<bar>float64 r - r\<bar> = \<bar>of_int (round_even (r / ?u)) - r / ?u\<bar> * ?u"
    using u by (simp add: abs_mult)
  also have "\<dots> \<le> 1/2 * ?u"
    using u round_even_error [of "r / ?u"] by (intro mult_right_mono) simp_all
  also have "\<dots> = 2 powi ?e * 2 powi (- 53)"
  proof -
    have "(2::real) powi (?e - 52) = 2 powi ((?e + (- 53)) + 1)" by simp
    also have "\<dots> = 2 powi (?e + (- 53)) * 2 powi 1"
      by (rule power_int_add) simp
    also have "(2::real) powi (?e + (- 53)) = 2 powi ?e * 2 powi (- 53)"
      by (rule power_int_add) simp
    finally show ?thesis by simp
  qed
  also have "\<dots> \<le> \<bar>r\<bar> * 2 powi (- 53)"
    using float64_exponent_bounds(1) [OF assms(1)] by (intro mult_right_mono) simp_all
  finally show ?thesis .
qed

lemma float64_exact:
  assumes "r \<noteq> 0" and "- 1022 \<le> float64_exponent r"
      and "r = of_int m * 2 powi j" and "float64_exponent r - 52 \<le> j"
  shows "float64 r = r"
proof -
  let ?e = "float64_exponent r"
  let ?u = "(2::real) powi (?e - 52)"
  have "r / ?u = of_int m * (2 powi j / 2 powi (?e - 52))" by (simp add: assms(3))
  also have "2 powi j / 2 powi (?e - 52) = (2::real) powi (j - (?e - 52))"
    by (simp add: power_int_diff)
  also have "\<dots> = 2 ^ nat (j - (?e - 52))"
    using assms(4) by (simp add: power_int_def)
  finally have "r / ?u = of_int (m * 2 ^ nat (j - (?e - 52)))" by simp
  then have "round_even (r / ?u) = m * 2 ^ nat (j - (?e - 52))"
    by (simp only: round_even_of_int)
  then have "float64 r = of_int (m * 2 ^ nat (j - (?e - 52))) * ?u"
    by (simp add: float64_unfold [OF assms(1,2)])
  also have "\<dots> = r / ?u * ?u"
    using \<open>r / ?u = of_int (m * 2 ^ nat (j - (?e - 52)))\<close> by simp
  also have "\<dots> = r" by simp
  finally show ?thesis .
qed

lemma float64_of_int_exact:
  assumes "\<bar>n\<bar> \<le> 2 ^ 53"
  shows "float64 (of_int n) = of_int n"
proof (cases "n = 0")
  case True
  then show ?thesis by (simp add: float64_def)
next
  case False
  let ?r = "of_int n :: real"
  have r: "?r \<noteq> 0" using False by simp
  have "(2::real) powi 0 \<le> \<bar>?r\<bar>" using False by (simp flip: of_int_abs)
  from float64_exponent_ge [OF r this] have lo: "0 \<le> float64_exponent ?r" .
  have "\<bar>?r\<bar> < 2 powi 54"
  proof -
    have "\<bar>?r\<bar> = of_int \<bar>n\<bar>" by simp
    also have "\<dots> \<le> of_int (2 ^ 53)" using assms by (simp only: of_int_le_iff)
    also have "\<dots> < (2::real) powi 54" by simp
    finally show ?thesis .
  qed
  from float64_exponent_less [OF r this] have hi: "float64_exponent ?r < 54" .
  show ?thesis
  proof (cases "float64_exponent ?r = 53")
    case True
    with float64_exponent_bounds(1) [OF r] have "2 ^ 53 \<le> \<bar>?r\<bar>" by simp
    then have "(of_int (2 ^ 53) :: real) \<le> of_int \<bar>n\<bar>" by simp
    then have "2 ^ 53 \<le> \<bar>n\<bar>" by (simp only: of_int_le_iff)
    with assms have "\<bar>n\<bar> = 2 ^ 53" by simp
    then have "n = 2 ^ 53 \<or> n = - (2 ^ 53)" by linarith
    then have "?r = of_int (sgn n) * 2 powi 53" by (auto simp: sgn_if)
    from float64_exact [OF r _ this] True lo show ?thesis by simp
  next
    case False
    with hi have "float64_exponent ?r - 52 \<le> 0" by simp
    moreover have "?r = of_int n * 2 powi 0" by simp
    ultimately show ?thesis using float64_exact [OF r _ _ , of n 0] lo by simp
  qed
qed

lemma float64_half_exact:
  assumes "\<bar>of_int k + 1/2 :: real\<bar> < 2 ^ 52"
  shows "float64 (of_int k + 1/2) = of_int k + 1/2"
proof -
  let ?r = "of_int k + 1/2 :: real"
  have "\<bar>?r\<bar> \<ge> 1/2"
  proof (cases "0 \<le> k")
    case True
    then have "0 \<le> (of_int k :: real)" by simp
    then show ?thesis by linarith
  next
    case False
    then have "k \<le> - 1" by simp
    then have "(of_int k :: real) \<le> of_int (- 1)" by (simp only: of_int_le_iff)
    then show ?thesis by simp
  qed
  then have r: "?r \<noteq> 0" by auto
  have "(2::real) powi (- 1) \<le> \<bar>?r\<bar>" using \<open>\<bar>?r\<bar> \<ge> 1/2\<close> by (simp add: power_int_minus_divide)
  from float64_exponent_ge [OF r this] have lo: "- 1 \<le> float64_exponent ?r" .
  have "\<bar>?r\<bar> < 2 powi 52" using assms by simp
  from float64_exponent_less [OF r this] have hi: "float64_exponent ?r < 52" .
  have "?r = of_int (2 * k + 1) * 2 powi (- 1)" by (simp add: power_int_minus_divide field_simps)
  from float64_exact [OF r _ this] lo hi show ?thesis by simp
qed

text \<open>
  The rounded quotient of two integers is on the same side of every half-integer as
  the exact quotient, as long as the dividend is below \<open>2 ^ 52\<close> in size.
\<close>

lemma math_Round_between:
  assumes "of_int j - 1/2 < x" and "x < of_int j + 1/2"
  shows "math_Round x = of_int j"
proof (cases "0 \<le> x")
  case True
  have "\<lfloor>x + 1/2\<rfloor> = j" using assms by linarith
  with True show ?thesis by (simp add: math_Round_def)
next
  case False
  have "\<lceil>x - 1/2\<rceil> = j" using assms by linarith
  with False show ?thesis by (simp add: math_Round_def)
qed

lemma int64_of_float64_of_int [simp]: "int64_of_float64 (of_int j) = j"
  by (simp add: int64_of_float64_def)

lemma math_Round_float64_quotient:
  fixes dt D :: int
  assumes D: "0 < D" and D53: "D \<le> 2 ^ 53" and range: "\<bar>dt\<bar> < 2 ^ 52"
  shows "math_Round (float64 (of_int dt / of_int D)) = math_Round (of_int dt / of_int D)"
proof (cases "dt = 0")
  case True
  then show ?thesis by (simp add: float64_def)
next
  case False
  let ?q = "of_int dt / of_int D :: real"
  let ?f = "float64 ?q"
  define j where "j = \<lfloor>?q + 1/2\<rfloor>"
  have Dr: "0 < (of_int D :: real)" using D by simp
  have D1: "1 \<le> (of_int D :: real)" using D by simp
  have q0: "?q \<noteq> 0" using False D by simp
  have absq: "\<bar>?q\<bar> = of_int \<bar>dt\<bar> / of_int D" using D by simp
  have dt52: "(of_int \<bar>dt\<bar> :: real) < 2 ^ 52"
  proof -
    have "(of_int \<bar>dt\<bar> :: real) < of_int (2 ^ 52)" using range by (simp only: of_int_less_iff)
    then show ?thesis by simp
  qed
  have lo: "of_int j - 1/2 \<le> ?q" and hi: "?q < of_int j + 1/2"
    unfolding j_def by linarith+
  have num: "?q - (of_int j - 1/2) = of_int (2 * dt - (2 * j - 1) * D) / (2 * of_int D)"
    using D by (simp add: field_simps)
  have num': "(of_int j + 1/2) - ?q = of_int ((2 * j + 1) * D - 2 * dt) / (2 * of_int D)"
    using D by (simp add: field_simps)
  from hi num' Dr have "0 < (of_int ((2 * j + 1) * D - 2 * dt) :: real)"
    by (simp add: field_simps)
  then have "0 < (2 * j + 1) * D - 2 * dt" by (simp only: of_int_0_less_iff)
  then have "1 \<le> (2 * j + 1) * D - 2 * dt" by simp
  then have "(1::real) \<le> of_int ((2 * j + 1) * D - 2 * dt)" by (simp only: of_int_1_le_iff)
  with num' Dr have gap_hi: "1 / (2 * of_int D) \<le> (of_int j + 1/2) - ?q"
    by (simp add: field_simps)
  show ?thesis
  proof (cases "?q = of_int j - 1/2")
    case True
    have "of_int \<bar>dt\<bar> / of_int D \<le> (of_int \<bar>dt\<bar> :: real) / 1"
      using D1 by (intro divide_left_mono) simp_all
    then have "\<bar>?q\<bar> \<le> of_int \<bar>dt\<bar>"
      unfolding absq by simp
    with dt52 have "\<bar>of_int (j - 1) + 1/2 :: real\<bar> < 2 ^ 52" using True by simp
    from float64_half_exact [OF this] True show ?thesis by simp
  next
    case False
    with lo have "0 < ?q - (of_int j - 1/2)" by simp
    with num Dr have "0 < (of_int (2 * dt - (2 * j - 1) * D) :: real)"
      by (simp add: field_simps)
    then have "0 < 2 * dt - (2 * j - 1) * D" by (simp only: of_int_0_less_iff)
    then have "1 \<le> 2 * dt - (2 * j - 1) * D" by simp
    then have "(1::real) \<le> of_int (2 * dt - (2 * j - 1) * D)" by (simp only: of_int_1_le_iff)
    with num Dr have gap_lo: "1 / (2 * of_int D) \<le> ?q - (of_int j - 1/2)"
      by (simp add: field_simps)
    have "(2::real) powi (- 53) \<le> \<bar>?q\<bar>"
    proof -
      have "(of_int D :: real) \<le> of_int (2 ^ 53) * of_int \<bar>dt\<bar>"
      proof -
        have "1 \<le> \<bar>dt\<bar>" using \<open>dt \<noteq> 0\<close> by simp
        then have "2 ^ 53 * 1 \<le> (2 ^ 53 :: int) * \<bar>dt\<bar>" by (intro mult_left_mono) simp_all
        with D53 have "D \<le> 2 ^ 53 * \<bar>dt\<bar>" by simp
        then have "(of_int D :: real) \<le> of_int (2 ^ 53 * \<bar>dt\<bar>)" by (simp only: of_int_le_iff)
        then show ?thesis by simp
      qed
      then show ?thesis unfolding absq using Dr by (simp add: power_int_minus_divide field_simps)
    qed
    from float64_exponent_ge [OF q0 this] have e: "- 1022 \<le> float64_exponent ?q" by simp
    have "\<bar>?f - ?q\<bar> \<le> \<bar>?q\<bar> * 2 powi (- 53)" by (rule float64_error [OF q0 e])
    also have "\<dots> < 1 / (2 * of_int D)"
    proof -
      have "\<bar>?q\<bar> * 2 powi (- 53) = of_int \<bar>dt\<bar> / (of_int D * 2 ^ 53)"
        unfolding absq by (simp add: power_int_minus_divide)
      also have "\<dots> < 2 ^ 52 / (of_int D * 2 ^ 53)"
        using dt52 Dr by (intro divide_strict_right_mono) simp_all
      also have "\<dots> = 1 / (2 * of_int D)" by simp
      finally show ?thesis .
    qed
    finally have err: "\<bar>?f - ?q\<bar> < 1 / (2 * of_int D)" .
    from err gap_lo gap_hi have "of_int j - 1/2 < ?f" and "?f < of_int j + 1/2"
      by linarith+
    then have "math_Round ?f = of_int j" by (rule math_Round_between)
    moreover from False lo hi have "math_Round ?q = of_int j"
      by (intro math_Round_between) simp_all
    ultimately show ?thesis by simp
  qed
qed


lemma slot_of_exact:
  assumes D: "0 < D" and D53: "D \<le> 2 ^ 53" and range: "\<bar>dt\<bar> < 2 ^ 52"
  shows "of_int (slot_of dt D) = math_Round (of_int dt / of_int D)"
proof -
  have "float64 (of_int dt) = of_int dt"
    using range by (intro float64_of_int_exact) simp
  moreover have "float64 (of_int D) = of_int D"
    using D D53 by (intro float64_of_int_exact) simp
  ultimately have "slot_of dt D = int64_of_float64 (math_Round (float64 (of_int dt / of_int D)))"
    by (simp add: slot_of_def)
  also have "\<dots> = int64_of_float64 (math_Round (of_int dt / of_int D))"
    by (simp only: math_Round_float64_quotient [OF assms])
  finally show ?thesis
    by (simp add: math_Round_def)
qed

lemma math_Round_slot:
  fixes k eps D :: int
  assumes D: "0 < D" and e0: "0 \<le> eps" and e1: "eps < D"
  shows "math_Round (of_int (k * D + eps) / of_int D) =
           of_int (if 2 * eps < D then k else if D < 2 * eps then k + 1
                   else if 0 \<le> k then k + 1 else k)"
proof -
  let ?x = "of_int (k * D + eps) / of_int D :: real"
  have Dr: "0 < (of_int D :: real)" using D by simp
  have x: "?x = of_int k + of_int eps / of_int D" using D by (simp add: field_simps)
  have ge: "0 \<le> of_int eps / (of_int D :: real)" using e0 D by simp
  have lt: "of_int eps / (of_int D :: real) < 1" using e1 D by simp
  consider "2 * eps < D" | "D < 2 * eps" | "2 * eps = D" by linarith
  then show ?thesis
  proof cases
    case 1
    then have "(of_int (2 * eps) :: real) < of_int D" by (simp only: of_int_less_iff)
    then have "of_int eps / (of_int D :: real) < 1/2" using Dr by (simp add: field_simps)
    with ge have "of_int k - 1/2 < ?x" and "?x < of_int k + 1/2" unfolding x by linarith+
    then have "math_Round ?x = of_int k" by (rule math_Round_between)
    with 1 show ?thesis by simp
  next
    case 2
    then have "(of_int D :: real) < of_int (2 * eps)" by (simp only: of_int_less_iff)
    then have "1/2 < of_int eps / (of_int D :: real)" using Dr by (simp add: field_simps)
    moreover have k1: "(of_int (k + 1) :: real) = of_int k + 1" by simp
    ultimately have "of_int (k + 1) - 1/2 < ?x" and "?x < of_int (k + 1) + 1/2"
      using lt unfolding x k1 by linarith+
    then have "math_Round ?x = of_int (k + 1)" by (rule math_Round_between)
    with 2 show ?thesis by simp
  next
    case 3
    then have "(of_int (2 * eps) :: real) = of_int D" by (simp only: of_int_eq_iff)
    then have "of_int eps / (of_int D :: real) = 1/2" using Dr by (simp add: field_simps)
    then have xh: "?x = of_int k + 1/2" unfolding x by simp
    show ?thesis
    proof (cases "0 \<le> k")
      case True
      then have "0 \<le> (of_int k :: real)" by simp
      then have "0 \<le> ?x" unfolding xh by simp
      moreover have "\<lfloor>of_int k + 1/2 + 1/2 :: real\<rfloor> = k + 1" by linarith
      ultimately have "math_Round ?x = of_int (k + 1)" unfolding xh by (simp add: math_Round_def)
      with 3 True show ?thesis by simp
    next
      case False
      then have "k \<le> - 1" by simp
      then have "(of_int k :: real) \<le> of_int (- 1)" by (simp only: of_int_le_iff)
      then have "\<not> 0 \<le> ?x" unfolding xh by simp
      moreover have "\<lceil>of_int k + 1/2 - 1/2 :: real\<rceil> = k" by simp
      ultimately have "math_Round ?x = of_int k" unfolding xh by (simp add: math_Round_def)
      with 3 False show ?thesis by simp
    qed
  qed
qed

lemma time_Sub_in_range:
  "\<bar>t - u\<bar> < 2 ^ 63 \<Longrightarrow> time_Sub t u = t - u"
  unfolding time_Sub_def minDuration_def maxDuration_def Let_def by (simp add: abs_less_iff)

lemma slot_of_index:
  fixes k eps D :: int
  assumes "0 < D" and "D \<le> 2 ^ 53" and "0 \<le> eps" and "eps < D" and "\<bar>k * D + eps\<bar> < 2 ^ 52"
  shows "slot_of (k * D + eps) D =
           (if 2 * eps < D then k else if D < 2 * eps then k + 1 else if 0 \<le> k then k + 1 else k)"
proof -
  have "(of_int (slot_of (k * D + eps) D) :: real) =
        of_int (if 2 * eps < D then k else if D < 2 * eps then k + 1 else if 0 \<le> k then k + 1 else k)"
    using slot_of_exact [OF assms(1,2,5)] math_Round_slot [OF assms(1,3,4), of k] by simp
  then show ?thesis by (simp only: of_int_eq_iff)
qed

text \<open>
  C1, as amended. Let the slot time \<open>D\<close> be positive and at most \<open>2 ^ 53\<close> ns, and let
  the tick come at \<open>T + k * D + \<epsilon>\<close> with \<open>0 \<le> \<epsilon> < D\<close>, less than \<open>2 ^ 52\<close> ns away
  from the genesis time \<open>T\<close>. Then the computed slot index is \<open>k\<close> when \<open>\<epsilon>\<close> is below half
  a slot and \<open>k + 1\<close> when it is above; at exactly half a slot it is \<open>k + 1\<close> for
  \<open>k \<ge> 0\<close> and \<open>k\<close> for \<open>k < 0\<close>. The computed slot is the exact quotient
  \<open>(tick - T) / D\<close> rounded to the nearest integer, a half going away from zero.
\<close>

theorem slot_index:
  assumes "0 < SlotTime c" and "SlotTime c \<le> 2 ^ 53"
      and "0 \<le> \<epsilon>" and "\<epsilon> < SlotTime c"
      and "\<bar>k * SlotTime c + \<epsilon>\<bar> < 2 ^ 52"
      and "tick = time_Unix (int64_of_uint64 (BeaconGenesisTime c)) + k * SlotTime c + \<epsilon>"
  shows "signedSlot c tick =
           (if 2 * \<epsilon> < SlotTime c then k
            else if SlotTime c < 2 * \<epsilon> then k + 1
            else if 0 \<le> k then k + 1 else k) \<and>
         of_int (signedSlot c tick) =
           math_Round (of_int (tick - time_Unix (int64_of_uint64 (BeaconGenesisTime c)))
                         / of_int (SlotTime c))"
proof -
  let ?T = "time_Unix (int64_of_uint64 (BeaconGenesisTime c))"
  let ?dt = "k * SlotTime c + \<epsilon>"
  have dt: "tick - ?T = ?dt" using assms(6) by simp
  have "\<bar>tick - ?T\<bar> < 2 ^ 63" using assms(5) unfolding dt by simp
  then have "time_Sub tick ?T = ?dt" using dt by (simp add: time_Sub_in_range)
  then have s: "signedSlot c tick = slot_of ?dt (SlotTime c)"
    by (simp add: signedSlot_def)
  from slot_of_index [OF assms(1-5)] slot_of_exact [OF assms(1,2,5)] show ?thesis
    unfolding s dt by simp
qed

theorem slot_index_witness:
  "signedSlot toy_cmd (1700000000 * 1000000000 + 3 * 12000000000 + 5000000000) = 3 \<and>
   signedSlot toy_cmd (1700000000 * 1000000000 + 3 * 12000000000 + 7000000000) = 4 \<and>
   signedSlot toy_cmd (1700000000 * 1000000000 - 12000000000) = - 1"
proof -
  have D: "0 < SlotTime toy_cmd" "SlotTime toy_cmd \<le> 2 ^ 53"
    by (simp_all add: toy_cmd_def)
  have T: "time_Unix (int64_of_uint64 (BeaconGenesisTime toy_cmd)) = 1700000000 * 1000000000"
    by (simp add: toy_cmd_def time_Unix_def int64_of_uint64_def)
  have a: "signedSlot toy_cmd (1700000000 * 1000000000 + 3 * 12000000000 + 5000000000) = 3"
    using slot_index [OF D, of 5000000000 3 "1700000000 * 1000000000 + 3 * 12000000000 + 5000000000"]
    by (simp add: T) (simp add: toy_cmd_def)
  have b: "signedSlot toy_cmd (1700000000 * 1000000000 + 3 * 12000000000 + 7000000000) = 4"
    using slot_index [OF D, of 7000000000 3 "1700000000 * 1000000000 + 3 * 12000000000 + 7000000000"]
    by (simp add: T) (simp add: toy_cmd_def)
  have c: "signedSlot toy_cmd (1700000000 * 1000000000 - 12000000000) = - 1"
    using slot_index [OF D, of 0 "- 1" "1700000000 * 1000000000 - 12000000000"]
    by (simp add: T) (simp add: toy_cmd_def)
  from a b c show ?thesis by simp
qed

text \<open>
  C1 as stated fails. With a slot time of 12 s, one slot and six seconds after genesis
  (\<open>k = 1\<close>, \<open>\<epsilon> = D / 2\<close>) the computed slot index is 2, not 1: the quotient \<open>1.5\<close> is
  exact in \<open>float64\<close>, and \<open>math.Round\<close> takes it to 2.
\<close>

theorem slot_index_counterexample:
  "(0::int) \<le> 6000000000 \<and> 6000000000 < SlotTime toy_cmd \<and>
   signedSlot toy_cmd
     (time_Unix (int64_of_uint64 (BeaconGenesisTime toy_cmd)) + 1 * SlotTime toy_cmd + 6000000000) = 2"
proof -
  have T: "time_Unix (int64_of_uint64 (BeaconGenesisTime toy_cmd)) = 1700000000000000000"
    by (simp add: toy_cmd_def time_Unix_def int64_of_uint64_def)
  have "time_Sub (1700000000000000000 + 1 * 12000000000 + 6000000000) 1700000000000000000 = 18000000000"
    by (simp add: time_Sub_in_range)
  moreover have "slot_of 18000000000 12000000000 = 2"
    using slot_of_index [of 12000000000 6000000000 1] by simp
  ultimately have "signedSlot toy_cmd
      (time_Unix (int64_of_uint64 (BeaconGenesisTime toy_cmd)) + 1 * SlotTime toy_cmd + 6000000000) = 2"
    unfolding signedSlot_def Let_def T by (simp add: toy_cmd_def)
  then show ?thesis by (simp add: toy_cmd_def)
qed

end
